theory Spec2Isabelle
  imports
    Main
    "HOL-Library.Word"
    "HOL-Library.Char_ord"
    "HOL-Library.List_Lexorder"
    "HOL-Library.Product_Lexorder"
begin

section \<open>Go values shared by the models\<close>

text \<open>
  A Go \<open>string\<close> and a \<open>[]uint8\<close> are both sequences of bytes; an Isabelle
  \<open>char\<close> is one byte, so both are \<open>char list\<close>. The conversions
  \<open>string(temp)\<close> and \<open>RunStatus(r)\<close> of the source keep the bytes.
\<close>

type_synonym bytes = "char list"

type_synonym RunStatus = string

text \<open>
  A Go \<open>error\<close>. \<open>ErrRecordNotFound\<close> is gorm's sentinel, \<open>DriverError\<close>
  any other error the database hands back, \<open>Errorf\<close> an error built by
  \<open>fmt.Errorf\<close> or \<open>errors.New\<close> with its message, \<open>MultiError\<close> the
  combination \<open>multierr.Append\<close> builds from two or more errors. The value
  \<open>nil\<close> is \<open>None\<close> of \<open>go_error option\<close>.
\<close>

datatype go_error =
    ErrRecordNotFound
  | DriverError string
  | Errorf string
  | MultiError "go_error list"

text \<open>
  \<open>driver.Value\<close> of \<open>database/sql/driver\<close>: an interface value holding nil,
  an int64, a float64, a bool, a []byte, a string or a time.Time. Floats and times are
  kept as their printed form; no function of the model looks inside them.
\<close>

datatype driver_Value =
    NilValue
  | Int64Value int
  | Float64Value string
  | BoolValue bool
  | BytesValue bytes
  | StringValue string
  | TimeValue string

section \<open>models: bulk deletion requests and run status collections\<close>

subsection \<open>strings.Join and strings.Split\<close>

text \<open>
  \<open>strings.Join(elems, sep)\<close>: the elements with \<open>sep\<close> between each two;
  the empty string for no element.
\<close>

fun Join :: "string list \<Rightarrow> string \<Rightarrow> string" where
  "Join [] sep = []"
| "Join [x] sep = x"
| "Join (x # y # ys) sep = x @ sep @ Join (y # ys) sep"

text \<open>
  \<open>strings.Split(s, sep)\<close> for a separator of one byte (the source only splits on
  \<open>","\<close>): while the separator occurs at index \<open>m\<close>, emit \<open>s[:m]\<close> and continue
  with \<open>s[m+1:]\<close>; emit what is left. The result always has at least one element:
  splitting the empty string gives one empty string.
\<close>

function Split :: "string \<Rightarrow> char \<Rightarrow> string list" where
  "Split s sep =
     (if sep \<in> set s
      then takeWhile (\<lambda>c. c \<noteq> sep) s # Split (tl (dropWhile (\<lambda>c. c \<noteq> sep) s)) sep
      else [s])"
  by pat_completeness auto
termination
proof (relation "measure (\<lambda>(s, sep). length s)")
  show "wf (measure (\<lambda>(s, sep). length s))"
    by simp
next
  fix s :: string and sep :: char
  assume occurs: "sep \<in> set s"
  then have "dropWhile (\<lambda>c. c \<noteq> sep) s \<noteq> []"
    by simp
  then have "length (tl (dropWhile (\<lambda>c. c \<noteq> sep) s)) < length (dropWhile (\<lambda>c. c \<noteq> sep) s)"
    by (cases "dropWhile (\<lambda>c. c \<noteq> sep) s") simp_all
  also have "\<dots> \<le> length s"
    by (rule length_dropWhile_le)
  finally show "((tl (dropWhile (\<lambda>c. c \<noteq> sep) s), sep), (s, sep)) \<in> measure (\<lambda>(s, sep). length s)"
    by simp
qed

declare Split.simps [simp del]

subsection \<open>RunStatusCollection\<close>

type_synonym RunStatusCollection = "RunStatus list"

definition ToStrings :: "RunStatusCollection \<Rightarrow> string list" where
  "ToStrings r = map (\<lambda>e. e) r"

text \<open>\<open>Value\<close> returns the joined statuses as a Go string, and never an error.\<close>

definition Value :: "RunStatusCollection \<Rightarrow> driver_Value \<times> go_error option" where
  "Value r = (StringValue (Join (ToStrings r) '',''), None)"

text \<open>
  \<open>Scan\<close> takes the receiver's collection and the value read; it returns the
  receiver's collection after the call and the error. The type assertion
  \<open>value.([]uint8)\<close> holds for a \<open>[]byte\<close> only; for every other value the
  receiver is left as it was and an error is returned (its message prints the value
  with \<open>%v\<close> and \<open>%T\<close>, which the model does not render).
\<close>

definition Scan :: "RunStatusCollection \<Rightarrow> driver_Value \<Rightarrow> RunStatusCollection \<times> go_error option" where
  "Scan r v =
     (case v of
        BytesValue temp \<Rightarrow> (map (\<lambda>s. s) (Split temp CHR '',''), None)
      | _ \<Rightarrow> (r, Some (Errorf ''Unable to convert value to RunStatusCollection'')))"

text \<open>
  A text column written from a Go string comes back from the database as the same
  bytes in a \<open>[]uint8\<close>: the store's side of the round trip.
\<close>

definition stored_text :: "driver_Value \<Rightarrow> driver_Value" where
  "stored_text v = (case v of StringValue s \<Rightarrow> BytesValue s | _ \<Rightarrow> v)"

subsection \<open>BulkDeleteRunRequest and BulkDeleteRunTask\<close>

type_synonym Time = int

text \<open>\<open>gorm.Model\<close>, the struct embedded in \<open>BulkDeleteRunRequest\<close>.\<close>

record Model =
  Model_ID :: nat
  Model_CreatedAt :: Time
  Model_UpdatedAt :: Time
  Model_DeletedAt :: "Time option"

record BulkDeleteRunRequest =
  Request_Model :: Model
  Request_Status :: RunStatusCollection
  UpdatedBefore :: Time

type_synonym BulkTaskStatus = string

definition BulkTaskStatusInProgress :: BulkTaskStatus where
  "BulkTaskStatusInProgress = []"

definition BulkTaskStatusErrored :: BulkTaskStatus where
  "BulkTaskStatusErrored = ''errored''"

definition BulkTaskStatusCompleted :: BulkTaskStatus where
  "BulkTaskStatusCompleted = ''completed''"

record BulkDeleteRunTask =
  Task_ID :: string
  Query :: BulkDeleteRunRequest
  QueryID :: nat
  Task_Status :: BulkTaskStatus
  ErrorMessage :: string
  Task_CreatedAt :: Time

text \<open>
  The loop of \<open>NewBulkDeleteRunTask\<close> over \<open>request.Status\<close>: the error for
  the first status that is neither of the two allowed ones, \<open>None\<close> when the loop
  runs to its end. The constants \<open>RunStatusCompleted\<close> and \<open>RunStatusErrored\<close>
  are declared outside the sources at hand, so the model takes their values as
  parameters.
\<close>

fun check_statuses :: "RunStatus \<Rightarrow> RunStatus \<Rightarrow> RunStatus list \<Rightarrow> go_error option" where
  "check_statuses RunStatusCompleted RunStatusErrored [] = None"
| "check_statuses RunStatusCompleted RunStatusErrored (status # rest) =
     (if status \<noteq> RunStatusCompleted \<and> status \<noteq> RunStatusErrored
      then Some (Errorf (''cannot delete Runs with status '' @ status))
      else check_statuses RunStatusCompleted RunStatusErrored rest)"

text \<open>
  \<open>NewBulkDeleteRunTask\<close>. \<open>NewBytes32ID\<close> is the identifier
  \<open>utils.NewBytes32ID()\<close> hands out at this call (a random one in the program).
  The struct literal sets \<open>ID\<close> and \<open>Query\<close>; every other field has Go's zero
  value.
\<close>

definition NewBulkDeleteRunTask ::
  "RunStatus \<Rightarrow> RunStatus \<Rightarrow> string \<Rightarrow> BulkDeleteRunRequest \<Rightarrow> go_error + BulkDeleteRunTask" where
  "NewBulkDeleteRunTask RunStatusCompleted RunStatusErrored NewBytes32ID request =
     (case check_statuses RunStatusCompleted RunStatusErrored (Request_Status request) of
        Some err \<Rightarrow> Inl err
      | None \<Rightarrow>
          Inr \<lparr>Task_ID = NewBytes32ID, Query = request, QueryID = 0, Task_Status = [],
               ErrorMessage = [], Task_CreatedAt = 0\<rparr>)"

section \<open>store/orm: the database behind the ORM\<close>

subsection \<open>Rows\<close>

type_synonym Address = "160 word"
type_synonym Hash = "256 word"
type_synonym uint64 = "64 word"

text \<open>
  Modelled from the spec: the declaration of \<open>models.TxAttempt\<close> is not among the
  sources. The spec's data model gives a TxAttempt a hash, a gas price, the signed
  payload, the block number it was sent at and a confirmed flag; \<open>AddTxAttempt\<close>
  sets \<open>Hash\<close>, \<open>GasPrice\<close>, \<open>Hex\<close>, \<open>TxID\<close> and \<open>SentAt\<close>. The store keys
  an attempt by its identifier, the hash (\<open>FindTxAttempt\<close> looks it up by hash).
  \<open>TxID\<close> is a row id the database hands out, a natural number here.
\<close>

record TxAttempt =
  Attempt_Hash :: Hash
  TxID :: nat
  GasPrice :: int
  Attempt_Confirmed :: bool
  Hex :: string
  SentAt :: uint64

text \<open>
  Modelled from the spec: the declaration of \<open>models.Tx\<close> is not among the
  sources. The spec's data model gives a Tx its from, to, nonce, data, value, gas
  limit, a confirmed flag and a pointer to its currently active attempt; the pointer
  is the attempt's hash, \<open>None\<close> while the Tx has no attempt. \<open>Tx_ID\<close> is the row
  id (\<open>FindTx\<close> looks a Tx up by it); \<open>0\<close> is the blank id of a Tx that was never
  saved.
\<close>

record Tx =
  Tx_ID :: nat
  From :: Address
  To :: Address
  Data :: bytes
  Nonce :: uint64
  Tx_Value :: int
  GasLimit :: uint64
  Tx_Confirmed :: bool
  ActiveAttempt :: "Hash option"

text \<open>
  Modelled from the spec: \<open>Tx.AssignTxAttempt\<close> is not among the sources. The
  spec has it mark the attempt as the active one of the Tx. The Tx's confirmed flag
  follows the attempt's: \<open>ConfirmTx\<close> of the source sets \<open>txat.Confirmed\<close>, calls
  \<open>AssignTxAttempt\<close> and saves the Tx to show it as confirmed.
\<close>

definition AssignTxAttempt :: "Tx \<Rightarrow> TxAttempt \<Rightarrow> Tx" where
  "AssignTxAttempt tx txat =
     tx\<lparr>ActiveAttempt := Some (Attempt_Hash txat), Tx_Confirmed := Attempt_Confirmed txat\<rparr>"

text \<open>
  \<open>types.Transaction\<close> of go-ethereum, as far as \<open>AddTxAttempt\<close> reads it: its
  hash, its gas price, and the signed payload that \<open>utils.EncodeTxToHex\<close> encodes.
\<close>

record Transaction =
  Transaction_Hash :: Hash
  Transaction_GasPrice :: int
  Transaction_Payload :: bytes

text \<open>
  Modelled from the spec: the declaration of \<open>models.Initiator\<close> is not among the
  sources. The spec gives an Initiator its type, the type's payload (schedule, time,
  watched address) and the "has fired" flag, here \<open>Ran\<close> (the column \<open>ran\<close> that
  \<open>MarkRan\<close> updates); \<open>SaveJob\<close> gives it a string id, blank when empty, and the
  id of its job spec.
\<close>

record Initiator =
  Initiator_ID :: string
  Initiator_JobSpecID :: string
  Initiator_Type :: string
  Schedule :: string
  Initiator_Time :: Time
  Ran :: bool
  Initiator_Address :: Address

text \<open>
  Modelled from the spec: the declarations of \<open>models.JobSpec\<close>, \<open>models.JobRun\<close>
  and \<open>models.TaskRun\<close> are not among the sources. A row of \<open>job_specs\<close> has its
  id and its validity window; the tasks and initiators of a spec are rows of other
  tables, which a plain \<open>Find\<close> does not load. A job run has its id, the id of its
  spec and its status; a task run its id, the id of its job run (the column
  \<open>job_run_id\<close>) and its status.
\<close>

record JobSpec =
  JobSpec_ID :: string
  StartAt :: "Time option"
  EndAt :: "Time option"

record JobRun =
  JobRun_ID :: string
  JobRun_JobSpecID :: string
  JobRun_Status :: RunStatus

record TaskRun =
  TaskRun_ID :: string
  JobRunID :: string
  TaskRun_Status :: RunStatus

text \<open>
  Modelled from the spec: the declaration of \<open>models.IndexableBlockNumber\<close> is not
  among the sources. The spec gives a head its number, its hash and the
  "monotonically-padded sortable number": the number is stored as its decimal text,
  together with the count of its digits, and \<open>LastHead\<close> orders by the columns
  \<open>digits\<close> and \<open>number\<close>. The type has no identifier of its own.
\<close>

record IndexableBlockNumber =
  Number :: nat
  Digits :: int
  Head_Hash :: Hash

text \<open>
  The decimal text of a block number, most significant digit first, without leading
  zeros; \<open>digit d\<close> is the character of the digit \<open>d\<close>.
\<close>

definition digit :: "nat \<Rightarrow> char" where
  "digit d = char_of (48 + d)"

function decimal :: "nat \<Rightarrow> string" where
  "decimal n = (if n < 10 then [digit n] else decimal (n div 10) @ [digit (n mod 10)])"
  by pat_completeness auto
termination
  by (relation "measure (\<lambda>n. n)") auto

declare decimal.simps [simp del]

text \<open>
  Modelled from the spec: the constructor \<open>NewIndexableBlockNumber\<close> is not among
  the sources. It builds the head of a block number and a hash, with the digit count
  of the number's decimal text.
\<close>

definition NewIndexableBlockNumber :: "nat \<Rightarrow> Hash \<Rightarrow> IndexableBlockNumber" where
  "NewIndexableBlockNumber n hash =
     \<lparr>Number = n, Digits = int (length (decimal n)), Head_Hash = hash\<rparr>"

subsection \<open>The database and gorm's statements\<close>

text \<open>The tables of the database, each a list of rows in the order of insertion.\<close>

record DB =
  txes :: "Tx list"
  tx_attempts :: "TxAttempt list"
  initiators :: "Initiator list"
  job_specs :: "JobSpec list"
  job_runs :: "JobRun list"
  task_runs :: "TaskRun list"
  indexable_block_numbers :: "IndexableBlockNumber list"

text \<open>
  Whether the database executes a statement is decided outside the program (the file
  is locked, the disk is full, the connection is closed). Each function of the model
  takes, for each statement it issues, what the driver answers: \<open>None\<close> when the
  statement is executed, \<open>Some msg\<close> when it fails with the error \<open>msg\<close> and has
  no effect.
\<close>

type_synonym driver = "string option"

text \<open>\<open>multierr.Append(left, right)\<close> for a \<open>right\<close> that is not nil.\<close>

fun multierr_Append :: "go_error option \<Rightarrow> go_error \<Rightarrow> go_error option" where
  "multierr_Append None e = Some e"
| "multierr_Append (Some (MultiError es)) e = Some (MultiError (es @ [e]))"
| "multierr_Append (Some l) e = Some (MultiError [l, e])"

definition ErrorNotFound :: go_error where
  "ErrorNotFound = ErrRecordNotFound"

text \<open>
  \<open>multify\<close> and \<open>multifyWithoutRecordNotFound\<close>, over the list
  \<open>db.GetErrors()\<close> of the errors a gorm handle carries.
\<close>

definition multify :: "go_error list \<Rightarrow> go_error option" where
  "multify errs =
     foldl (\<lambda>merr e. if e = ErrRecordNotFound then multierr_Append merr ErrorNotFound
                       else multierr_Append merr e) None errs"

definition multifyWithoutRecordNotFound :: "go_error list \<Rightarrow> go_error option" where
  "multifyWithoutRecordNotFound errs =
     foldl (\<lambda>merr e. if e \<noteq> ErrRecordNotFound then multierr_Append merr e else merr) None errs"

text \<open>\<open>db.Error\<close>: the error of a handle, nil when it carries none.\<close>

definition Error :: "go_error list \<Rightarrow> go_error option" where
  "Error errs = (case errs of [] \<Rightarrow> None | [e] \<Rightarrow> Some e | _ \<Rightarrow> Some (MultiError errs))"

text \<open>
  A row with the key of \<open>r\<close> is replaced by \<open>r\<close> where it stands; \<open>r\<close> is
  appended when no row has its key. This is gorm's \<open>Save\<close> of a value whose primary
  key is not blank: an \<open>UPDATE\<close> of the row with that key, and an \<open>INSERT\<close> when
  the update touched no row.
\<close>

fun upsert :: "('r \<Rightarrow> 'k) \<Rightarrow> 'r \<Rightarrow> 'r list \<Rightarrow> 'r list" where
  "upsert key r [] = [r]"
| "upsert key r (x # xs) = (if key x = key r then r # xs else x # upsert key r xs)"

text \<open>The id an auto-increment column gives the next inserted row.\<close>

definition next_id :: "nat list \<Rightarrow> nat" where
  "next_id ids = Suc (fold max ids 0)"

text \<open>
  A gorm handle (\<open>*gorm.DB\<close>): the errors it carries and the database behind it.
  \<open>orm.DB\<close> is a handle without errors. A statement chained on a handle that
  already carries an error is skipped, and the handle keeps its error.
\<close>

record gorm_DB =
  Errors :: "go_error list"
  Store :: DB

definition handle :: "DB \<Rightarrow> gorm_DB" where
  "handle db = \<lparr>Errors = [], Store = db\<rparr>"

text \<open>
  \<open>Save(tx)\<close> for a Tx: with a blank id the row is inserted under the next id, which
  is written back into the Tx; otherwise the row with that id is updated or inserted.
\<close>

definition Save_Tx :: "driver \<Rightarrow> gorm_DB \<Rightarrow> Tx \<Rightarrow> Tx \<times> gorm_DB" where
  "Save_Tx drv h tx =
     (if Errors h \<noteq> [] then (tx, h)
      else case drv of
        Some msg \<Rightarrow> (tx, h\<lparr>Errors := [DriverError msg]\<rparr>)
      | None \<Rightarrow>
          if Tx_ID tx = 0
          then let tx' = tx\<lparr>Tx_ID := next_id (map Tx_ID (txes (Store h)))\<rparr>
               in (tx', h\<lparr>Store := (Store h)\<lparr>txes := txes (Store h) @ [tx']\<rparr>\<rparr>)
          else (tx, h\<lparr>Store := (Store h)\<lparr>txes := upsert Tx_ID tx (txes (Store h))\<rparr>\<rparr>))"

text \<open>\<open>Save(attempt)\<close> for a TxAttempt, keyed by its hash.\<close>

definition Save_TxAttempt :: "driver \<Rightarrow> gorm_DB \<Rightarrow> TxAttempt \<Rightarrow> gorm_DB" where
  "Save_TxAttempt drv h attempt =
     (if Errors h \<noteq> [] then h
      else case drv of
        Some msg \<Rightarrow> h\<lparr>Errors := [DriverError msg]\<rparr>
      | None \<Rightarrow>
          h\<lparr>Store := (Store h)\<lparr>tx_attempts := upsert Attempt_Hash attempt (tx_attempts (Store h))\<rparr>\<rparr>)"

text \<open>
  \<open>Order("k desc")\<close> followed by \<open>First\<close>: a row whose key is greatest, the earliest
  such row of the table; no row when the table has none.
\<close>

fun first_desc :: "('r \<Rightarrow> 'k::linorder) \<Rightarrow> 'r list \<Rightarrow> 'r option" where
  "first_desc key [] = None"
| "first_desc key (r # rs) =
     (case first_desc key rs of
        None \<Rightarrow> Some r
      | Some m \<Rightarrow> if key r < key m then Some m else Some r)"

text \<open>
  \<open>First(&out)\<close> on ordered rows: the row found, or \<open>ErrRecordNotFound\<close> when there
  is none, or the driver's error.
\<close>

definition First :: "driver \<Rightarrow> ('r \<Rightarrow> 'k::linorder) \<Rightarrow> 'r list \<Rightarrow> 'r option \<times> go_error list" where
  "First drv key rows =
     (case drv of
        Some msg \<Rightarrow> (None, [DriverError msg])
      | None \<Rightarrow>
          (case first_desc key rows of
             None \<Rightarrow> (None, [ErrRecordNotFound])
           | Some r \<Rightarrow> (Some r, [])))"

text \<open>
  \<open>Limit(limit).Offset(offset).Find(&rows)\<close>: the rows of the table from
  \<open>offset\<close> on, at most \<open>limit\<close> of them. \<open>Find\<close> into a slice reports no error
  when it finds no row.
\<close>

definition Find :: "driver \<Rightarrow> nat \<Rightarrow> nat \<Rightarrow> 'r list \<Rightarrow> 'r list \<times> go_error list" where
  "Find drv limit offset rows =
     (case drv of
        Some msg \<Rightarrow> ([], [DriverError msg])
      | None \<Rightarrow> (take limit (drop offset rows), []))"

text \<open>\<open>Where(cond).Delete(T{})\<close>: the rows that satisfy the condition are deleted.\<close>

definition Delete :: "driver \<Rightarrow> ('r \<Rightarrow> bool) \<Rightarrow> 'r list \<Rightarrow> 'r list \<times> go_error list" where
  "Delete drv cond rows =
     (case drv of
        Some msg \<Rightarrow> (rows, [DriverError msg])
      | None \<Rightarrow> (filter (\<lambda>r. \<not> cond r) rows, []))"

subsection \<open>The functions of the ORM\<close>

text \<open>
  \<open>Jobs\<close>. The callback may keep state of its own: it takes its state and a job
  spec and returns its answer and its new state. \<open>range_cb\<close> is the inner loop over
  one batch: it stops at the first job for which the callback answers false, and says
  whether the batch was run to its end.
\<close>

fun range_cb :: "('s \<Rightarrow> JobSpec \<Rightarrow> bool \<times> 's) \<Rightarrow> JobSpec list \<Rightarrow> 's \<Rightarrow> bool \<times> 's" where
  "range_cb cb [] s = (True, s)"
| "range_cb cb (j # js) s =
     (if \<not> fst (cb s j) then (False, snd (cb s j)) else range_cb cb js (snd (cb s j)))"

text \<open>
  The outer loop, with \<open>limit\<close> 1000. \<open>drv offset\<close> is the driver's answer to the
  query at that offset. The loop returns the error (nil when the enumeration ended or
  was stopped by the callback) and the callback's state.
\<close>

function Jobs_loop ::
  "(nat \<Rightarrow> driver) \<Rightarrow> DB \<Rightarrow> ('s \<Rightarrow> JobSpec \<Rightarrow> bool \<times> 's) \<Rightarrow> nat \<Rightarrow> 's \<Rightarrow> go_error option \<times> 's" where
  "Jobs_loop drv db cb offset s =
     (if multify (snd (Find (drv offset) 1000 offset (job_specs db))) \<noteq> None
      then (multify (snd (Find (drv offset) 1000 offset (job_specs db))), s)
      else if \<not> fst (range_cb cb (fst (Find (drv offset) 1000 offset (job_specs db))) s)
      then (None, snd (range_cb cb (fst (Find (drv offset) 1000 offset (job_specs db))) s))
      else if length (fst (Find (drv offset) 1000 offset (job_specs db))) < 1000
      then (None, snd (range_cb cb (fst (Find (drv offset) 1000 offset (job_specs db))) s))
      else Jobs_loop drv db cb (offset + 1000)
             (snd (range_cb cb (fst (Find (drv offset) 1000 offset (job_specs db))) s)))"
  by pat_completeness auto
termination
proof (relation "measure (\<lambda>(drv, db, cb, offset, s). length (job_specs db) - offset)")
  show "wf (measure (\<lambda>(drv, db, cb, offset, s). length (job_specs db) - offset))"
    by simp
next
  fix drv :: "nat \<Rightarrow> driver" and db :: DB and cb :: "'s \<Rightarrow> JobSpec \<Rightarrow> bool \<times> 's"
    and offset :: nat and s :: 's
  assume full: "\<not> length (fst (Find (drv offset) 1000 offset (job_specs db))) < 1000"
  have "length (fst (Find (drv offset) 1000 offset (job_specs db))) \<le> length (job_specs db) - offset"
    by (simp add: Find_def split: option.splits)
  with full have "1000 \<le> length (job_specs db) - offset"
    by linarith
  then show "((drv, db, cb, offset + 1000,
               snd (range_cb cb (fst (Find (drv offset) 1000 offset (job_specs db))) s)),
              (drv, db, cb, offset, s))
             \<in> measure (\<lambda>(drv, db, cb, offset, s). length (job_specs db) - offset)"
    by simp
qed

declare Jobs_loop.simps [simp del]

definition Jobs ::
  "(nat \<Rightarrow> driver) \<Rightarrow> DB \<Rightarrow> ('s \<Rightarrow> JobSpec \<Rightarrow> bool \<times> 's) \<Rightarrow> 's \<Rightarrow> go_error option \<times> 's" where
  "Jobs drv db cb s = Jobs_loop drv db cb 0 s"

text \<open>
  \<open>CreateTx\<close> returns the Tx (with the id the database gave it), the error and the
  database after the call.
\<close>

definition CreateTx ::
  "driver \<Rightarrow> DB \<Rightarrow> Address \<Rightarrow> uint64 \<Rightarrow> Address \<Rightarrow> bytes \<Rightarrow> int \<Rightarrow> uint64 \<Rightarrow> Tx \<times> go_error option \<times> DB" where
  "CreateTx drv db from nonce to data val gasLimit =
     (let tx = \<lparr>Tx_ID = 0, From = from, To = to, Data = data, Nonce = nonce, Tx_Value = val,
                GasLimit = gasLimit, Tx_Confirmed = False, ActiveAttempt = None\<rparr>;
          saved = Save_Tx drv (handle db) tx
      in (fst saved, multify (Errors (snd saved)), Store (snd saved)))"

text \<open>
  \<open>AddTxAttempt\<close>. \<open>EncodeTxToHex\<close> of \<open>utils\<close> is not among the sources; the
  model takes it as a parameter that returns the hex text or an error. \<open>drv1\<close>
  answers the save of the Tx, \<open>drv2\<close> the save of the attempt. The function returns
  the Tx after the call (the caller's Tx is changed through the pointer), the attempt
  (nil, here \<open>None\<close>, when the encoding failed), the error and the database.
\<close>

definition AddTxAttempt ::
  "(Transaction \<Rightarrow> go_error + string) \<Rightarrow> driver \<Rightarrow> driver \<Rightarrow> DB \<Rightarrow> Tx \<Rightarrow> Transaction \<Rightarrow> uint64 \<Rightarrow>
     Tx \<times> TxAttempt option \<times> go_error option \<times> DB" where
  "AddTxAttempt EncodeTxToHex drv1 drv2 db tx etx blkNum =
     (case EncodeTxToHex etx of
        Inl err \<Rightarrow> (tx, None, Some err, db)
      | Inr hex \<Rightarrow>
          (let attempt = \<lparr>Attempt_Hash = Transaction_Hash etx, TxID = Tx_ID tx,
                          GasPrice = Transaction_GasPrice etx, Attempt_Confirmed = False,
                          Hex = hex, SentAt = blkNum\<rparr>;
               tx1 = (if \<not> Tx_Confirmed tx then AssignTxAttempt tx attempt else tx);
               saved = Save_Tx drv1 (handle db) tx1;
               h = Save_TxAttempt drv2 (snd saved) attempt
           in (fst saved, Some attempt, multify (Errors h), Store h)))"

text \<open>The zero value of a \<open>models.Tx\<close>.\<close>

definition zero_Tx :: Tx where
  "zero_Tx = \<lparr>Tx_ID = 0, From = 0, To = 0, Data = [], Nonce = 0, Tx_Value = 0,
              GasLimit = 0, Tx_Confirmed = False, ActiveAttempt = None\<rparr>"

definition GetLastNonce :: "driver \<Rightarrow> DB \<Rightarrow> Address \<Rightarrow> uint64 \<times> go_error option" where
  "GetLastNonce drv db address =
     (let rval = First drv Nonce (filter (\<lambda>t. From t = address) (txes db));
          transaction = (case fst rval of None \<Rightarrow> zero_Tx | Some t \<Rightarrow> t);
          err = multifyWithoutRecordNotFound (snd rval)
      in (Nonce transaction, err))"

text \<open>
  \<open>Model(i).Update("ran", true)\<close>: gorm writes the attribute into the struct, then
  updates the column \<open>ran\<close> of the row with the initiator's id, and of every row
  when that id is blank (gorm then issues the \<open>UPDATE\<close> without a condition).
\<close>

definition Update_ran :: "driver \<Rightarrow> Initiator \<Rightarrow> Initiator list \<Rightarrow> Initiator \<times> Initiator list \<times> go_error list" where
  "Update_ran drv i rows =
     (case drv of
        Some msg \<Rightarrow> (i\<lparr>Ran := True\<rparr>, rows, [DriverError msg])
      | None \<Rightarrow>
          (i\<lparr>Ran := True\<rparr>,
           map (\<lambda>r. if Initiator_ID i = [] \<or> Initiator_ID r = Initiator_ID i
                     then r\<lparr>Ran := True\<rparr> else r) rows,
           []))"

text \<open>\<open>MarkRan\<close> returns the initiator after the call, the error and the database.\<close>

definition MarkRan :: "driver \<Rightarrow> DB \<Rightarrow> Initiator \<Rightarrow> Initiator \<times> go_error option \<times> DB" where
  "MarkRan drv db i =
     (let updated = Update_ran drv i (initiators db)
      in (fst updated, multify (snd (snd updated)), db\<lparr>initiators := fst (snd updated)\<rparr>))"

text \<open>
  \<open>DeleteJobRun\<close>. \<open>Begin\<close> opens a transaction on the database: its statements
  work on \<open>tx\<close>, a copy that replaces the database when the transaction is committed
  and is dropped when it is rolled back, or when the commit fails. \<open>drv1\<close> and
  \<open>drv2\<close> answer the two deletions, \<open>drv3\<close> the commit.
\<close>

definition Commit :: "driver \<Rightarrow> DB \<Rightarrow> DB \<Rightarrow> go_error list \<times> DB" where
  "Commit drv db tx = (case drv of Some msg \<Rightarrow> ([DriverError msg], db) | None \<Rightarrow> ([], tx))"

definition DeleteJobRun :: "driver \<Rightarrow> driver \<Rightarrow> driver \<Rightarrow> DB \<Rightarrow> string \<Rightarrow> go_error option \<times> DB" where
  "DeleteJobRun drv1 drv2 drv3 db ID =
     (let tx = db;
          d1 = Delete drv1 (\<lambda>r. JobRun_ID r = ID) (job_runs tx)
      in case Error (snd d1) of
           Some err \<Rightarrow> (Some err, db)
         | None \<Rightarrow>
             (let tx = tx\<lparr>job_runs := fst d1\<rparr>;
                  d2 = Delete drv2 (\<lambda>r. JobRunID r = ID) (task_runs tx)
              in case Error (snd d2) of
                   Some err \<Rightarrow> (Some err, db)
                 | None \<Rightarrow>
                     (let c = Commit drv3 db (tx\<lparr>task_runs := fst d2\<rparr>)
                      in (Error (fst c), snd c))))"

text \<open>
  \<open>SaveHead\<close>: the head has no identifier, so \<open>Save\<close> inserts a row. It returns
  the error and the database.
\<close>

definition SaveHead :: "driver \<Rightarrow> DB \<Rightarrow> IndexableBlockNumber \<Rightarrow> go_error option \<times> DB" where
  "SaveHead drv db n =
     (case drv of
        Some msg \<Rightarrow> (Error [DriverError msg], db)
      | None \<Rightarrow> (Error [], db\<lparr>indexable_block_numbers := indexable_block_numbers db @ [n]\<rparr>))"

text \<open>
  A sequence of \<open>SaveHead\<close> calls, each with the head it saves and the driver's
  answer: the database after the last call.
\<close>

fun SaveHead_calls :: "DB \<Rightarrow> (driver \<times> IndexableBlockNumber) list \<Rightarrow> DB" where
  "SaveHead_calls db [] = db"
| "SaveHead_calls db (c # cs) = SaveHead_calls (snd (SaveHead (fst c) db (snd c))) cs"

text \<open>
  The key of \<open>Order("digits desc, number desc")\<close>: the digit count, then the text
  of the number; texts compare byte by byte.
\<close>

definition head_order :: "IndexableBlockNumber \<Rightarrow> int \<times> string" where
  "head_order n = (Digits n, decimal (Number n))"

text \<open>The zero value of a \<open>models.IndexableBlockNumber\<close>.\<close>

definition zero_IndexableBlockNumber :: IndexableBlockNumber where
  "zero_IndexableBlockNumber = \<lparr>Number = 0, Digits = 0, Head_Hash = 0\<rparr>"

definition LastHead :: "driver \<Rightarrow> DB \<Rightarrow> IndexableBlockNumber \<times> go_error option" where
  "LastHead drv db =
     (let rval = First drv head_order (indexable_block_numbers db);
          number = (case fst rval of None \<Rightarrow> zero_IndexableBlockNumber | Some n \<Rightarrow> n)
      in (number, multifyWithoutRecordNotFound (snd rval)))"

text \<open>
  A sequence of \<open>AddTxAttempt\<close> calls on one Tx, each with the driver's two answers,
  the signed transaction and the block number: the Tx and the database after the last
  call, and the errors of the calls.
\<close>

fun AddTxAttempt_calls ::
  "(Transaction \<Rightarrow> go_error + string) \<Rightarrow> DB \<Rightarrow> Tx \<Rightarrow> (driver \<times> driver \<times> Transaction \<times> uint64) list \<Rightarrow>
     Tx \<times> go_error option list \<times> DB" where
  "AddTxAttempt_calls EncodeTxToHex db tx [] = (tx, [], db)"
| "AddTxAttempt_calls EncodeTxToHex db tx ((drv1, drv2, etx, blkNum) # cs) =
     (let r = AddTxAttempt EncodeTxToHex drv1 drv2 db tx etx blkNum;
          rest = AddTxAttempt_calls EncodeTxToHex (snd (snd (snd r))) (fst r) cs
      in (fst rest, fst (snd (snd r)) # fst (snd rest), snd (snd rest)))"

text \<open>
  A head is well formed when its digit count is the length of the decimal text of its
  number, as \<open>NewIndexableBlockNumber\<close> builds it.
\<close>

definition well_formed_head :: "IndexableBlockNumber \<Rightarrow> bool" where
  "well_formed_head n \<longleftrightarrow> Digits n = int (length (decimal (Number n)))"

text \<open>The database without rows.\<close>

definition empty_DB :: DB where
  "empty_DB = \<lparr>txes = [], tx_attempts = [], initiators = [], job_specs = [], job_runs = [],
                task_runs = [], indexable_block_numbers = []\<rparr>"

text \<open>
  What the enumeration of the job specs is to do, after the words of its description:
  the callback is invoked once on each job spec, in the order of the table, up to and
  including the first one for which it answers false. \<open>each_until_false\<close> gives
  the job specs the callback is invoked on and the callback's state at the end.
\<close>

fun each_until_false :: "('s \<Rightarrow> JobSpec \<Rightarrow> bool \<times> 's) \<Rightarrow> JobSpec list \<Rightarrow> 's \<Rightarrow> JobSpec list \<times> 's" where
  "each_until_false cb [] s = ([], s)"
| "each_until_false cb (j # js) s =
     (if fst (cb s j)
      then (j # fst (each_until_false cb js (snd (cb s j))), snd (each_until_false cb js (snd (cb s j))))
      else ([j], snd (cb s j)))"

text \<open>
  A callback together with the record of its invocations: the state is extended by the
  list of the job specs the callback was invoked on so far.
\<close>

definition recording ::
  "('s \<Rightarrow> JobSpec \<Rightarrow> bool \<times> 's) \<Rightarrow> JobSpec list \<times> 's \<Rightarrow> JobSpec \<Rightarrow> bool \<times> JobSpec list \<times> 's" where
  "recording cb st j = (fst (cb (snd st) j), fst st @ [j], snd (cb (snd st) j))"

section \<open>Properties of the run status collection\<close>

lemma Split_absent: "sep \<notin> set s \<Longrightarrow> Split s sep = [s]"
  by (simp add: Split.simps)

lemma Split_at_first: "sep \<notin> set x \<Longrightarrow> Split (x @ sep # rest) sep = x # Split rest sep"
proof -
  assume absent: "sep \<notin> set x"
  then have tw: "takeWhile (\<lambda>c. c \<noteq> sep) (x @ sep # rest) = x"
    by (induction x) auto
  from absent have dw: "dropWhile (\<lambda>c. c \<noteq> sep) (x @ sep # rest) = sep # rest"
    by (induction x) auto
  show ?thesis
    by (subst Split.simps) (simp add: tw dw)
qed

lemma Split_Join:
  "xs \<noteq> [] \<Longrightarrow> \<forall>x\<in>set xs. sep \<notin> set x \<Longrightarrow> Split (Join xs [sep]) sep = xs"
proof (induction xs "[sep]" rule: Join.induct)
  case 1
  then show ?case by simp
next
  case (2 x)
  then show ?case by (simp add: Split_absent)
next
  case (3 x y ys)
  then show ?case by (simp add: Split_at_first)
qed

text \<open>
  C10, as the claim states it, at the collection holding the one status
  \<open>completed\<close>: \<open>Value\<close> produces a Go string, \<open>Scan\<close> applied to that very
  value fails its \<open>[]uint8\<close> type assertion, returns an error and leaves the
  (empty) receiver as it was, so the original collection is not restored.
\<close>

theorem Scan_Value_counterexample:
  "fst (Value [''completed'']) = StringValue ''completed'' \<and>
   Scan [] (fst (Value [''completed''])) =
     ([], Some (Errorf ''Unable to convert value to RunStatusCollection''))"
  by (simp add: Value_def Scan_def ToStrings_def)

text \<open>
  C10, amended: for every non-empty collection whose statuses contain no comma,
  \<open>Scan\<close> applied to the bytes of the text that \<open>Value\<close> produces (the form in
  which the database hands a stored text back) restores the collection without an
  error, whatever the receiver held; for the empty collection it yields the collection
  of the one empty status; and \<open>Scan\<close> applied to the value of \<open>Value\<close> itself,
  a Go string, returns an error and leaves the receiver unchanged.
\<close>

theorem Scan_stored_Value_roundtrip:
  "(r \<noteq> [] \<and> (\<forall>s\<in>set r. CHR '','' \<notin> set s) \<longrightarrow>
      Scan r0 (stored_text (fst (Value r))) = (r, None)) \<and>
   Scan r0 (stored_text (fst (Value []))) = ([[]], None) \<and>
   fst (Scan r0 (fst (Value r))) = r0 \<and> snd (Scan r0 (fst (Value r))) \<noteq> None"
proof -
  have "Scan r0 (stored_text (fst (Value r))) = (r, None)"
    if "r \<noteq> []" and "\<forall>s\<in>set r. CHR '','' \<notin> set s"
    using Split_Join [OF that]
    by (simp add: Scan_def stored_text_def Value_def ToStrings_def)
  moreover have "Scan r0 (stored_text (fst (Value []))) = ([[]], None)"
    by (simp add: Scan_def stored_text_def Value_def ToStrings_def Split_absent)
  moreover have "fst (Scan r0 (fst (Value r))) = r0 \<and> snd (Scan r0 (fst (Value r))) \<noteq> None"
    by (simp add: Scan_def Value_def)
  ultimately show ?thesis
    by blast
qed

theorem Scan_stored_Value_roundtrip_witness:
  "[''completed'', ''errored''] \<noteq> [] \<and>
   CHR '','' \<notin> set ''completed'' \<and> CHR '','' \<notin> set ''errored'' \<and>
   fst (Value [''completed'', ''errored'']) = StringValue ''completed,errored'' \<and>
   Scan [] (stored_text (fst (Value [''completed'', ''errored'']))) =
     ([''completed'', ''errored''], None)"
  using Scan_stored_Value_roundtrip [of "[''completed'', ''errored'']" "[]"]
  by (simp add: Value_def ToStrings_def)

section \<open>Properties of the bulk deletion task\<close>

lemma check_statuses_None:
  "check_statuses c e sts = None \<longleftrightarrow> (\<forall>s\<in>set sts. s = c \<or> s = e)"
  by (induction sts) auto

text \<open>
  C8: \<open>NewBulkDeleteRunTask\<close> returns an error exactly when the request's status
  list holds a status other than \<open>RunStatusCompleted\<close> and \<open>RunStatusErrored\<close>;
  otherwise it returns a task whose query is the request, whose ID is the one
  \<open>NewBytes32ID\<close> generated, and whose status is the in-progress (empty) one.
\<close>

theorem NewBulkDeleteRunTask_terminal_only:
  "((\<exists>err. NewBulkDeleteRunTask c e newID request = Inl err) \<longleftrightarrow>
      (\<exists>s\<in>set (Request_Status request). s \<noteq> c \<and> s \<noteq> e)) \<and>
   ((\<forall>s\<in>set (Request_Status request). s = c \<or> s = e) \<longrightarrow>
      (\<exists>task. NewBulkDeleteRunTask c e newID request = Inr task \<and>
         Query task = request \<and> Task_ID task = newID \<and>
         Task_Status task = BulkTaskStatusInProgress))"
proof -
  have none: "check_statuses c e (Request_Status request) = None \<longleftrightarrow>
      (\<forall>s\<in>set (Request_Status request). s = c \<or> s = e)"
    by (rule check_statuses_None)
  show ?thesis
  proof (cases "check_statuses c e (Request_Status request)")
    case None
    with none show ?thesis
      by (auto simp: NewBulkDeleteRunTask_def BulkTaskStatusInProgress_def)
  next
    case (Some err)
    with none show ?thesis
      by (auto simp: NewBulkDeleteRunTask_def)
  qed
qed

theorem NewBulkDeleteRunTask_terminal_only_witness:
  "NewBulkDeleteRunTask ''completed'' ''errored'' ''id1''
      \<lparr>Request_Model = \<lparr>Model_ID = 0, Model_CreatedAt = 0, Model_UpdatedAt = 0, Model_DeletedAt = None\<rparr>,
       Request_Status = [''completed'', ''errored''], UpdatedBefore = 5\<rparr> =
    Inr \<lparr>Task_ID = ''id1'',
         Query = \<lparr>Request_Model = \<lparr>Model_ID = 0, Model_CreatedAt = 0, Model_UpdatedAt = 0, Model_DeletedAt = None\<rparr>,
                  Request_Status = [''completed'', ''errored''], UpdatedBefore = 5\<rparr>,
         QueryID = 0, Task_Status = [], ErrorMessage = [], Task_CreatedAt = 0\<rparr> \<and>
   (\<exists>err. NewBulkDeleteRunTask ''completed'' ''errored'' ''id1''
      \<lparr>Request_Model = \<lparr>Model_ID = 0, Model_CreatedAt = 0, Model_UpdatedAt = 0, Model_DeletedAt = None\<rparr>,
       Request_Status = [''completed'', ''in_progress''], UpdatedBefore = 5\<rparr> = Inl err)"
  using NewBulkDeleteRunTask_terminal_only [of "''completed''" "''errored''" "''id1''"
      "\<lparr>Request_Model = \<lparr>Model_ID = 0, Model_CreatedAt = 0, Model_UpdatedAt = 0, Model_DeletedAt = None\<rparr>,
        Request_Status = [''completed'', ''in_progress''], UpdatedBefore = 5\<rparr>"]
  by (simp add: NewBulkDeleteRunTask_def)

section \<open>Properties of the head store\<close>

lemma digit_less: "a < 10 \<Longrightarrow> b < 10 \<Longrightarrow> digit a < digit b \<longleftrightarrow> a < b"
  by (simp add: digit_def less_char_def)

lemma digit_eq: "a < 10 \<Longrightarrow> b < 10 \<Longrightarrow> digit a = digit b \<longleftrightarrow> a = b"
proof -
  assume a: "a < 10" and b: "b < 10"
  have "of_char (digit a) = (48 + a :: nat)" "of_char (digit b) = (48 + b :: nat)"
    using a b by (simp_all add: digit_def)
  then show ?thesis
    by (metis add_left_cancel)
qed

lemma decimal_nonempty: "decimal n \<noteq> []"
  by (subst decimal.simps) simp

lemma length_decimal_pos: "0 < length (decimal n)"
  using decimal_nonempty [of n] by simp

lemma length_decimal_small: "n < 10 \<Longrightarrow> length (decimal n) = 1"
  by (subst decimal.simps) simp

lemma length_decimal_large: "\<not> n < 10 \<Longrightarrow> length (decimal n) = Suc (length (decimal (n div 10)))"
  by (subst decimal.simps) simp

lemma length_decimal_mono: "a \<le> b \<Longrightarrow> length (decimal a) \<le> length (decimal b)"
proof (induction b arbitrary: a rule: decimal.induct)
  case (1 b)
  show ?case
  proof (cases "b < 10")
    case True
    with "1.prems" show ?thesis
      by (simp add: length_decimal_small)
  next
    case False
    show ?thesis
    proof (cases "a < 10")
      case True
      with False show ?thesis
        by (simp add: length_decimal_small length_decimal_large)
    next
      case large: False
      from "1.prems" have "a div 10 \<le> b div 10"
        by (rule div_le_mono)
      with "1.IH" [OF False] have "length (decimal (a div 10)) \<le> length (decimal (b div 10))"
        by blast
      with False large show ?thesis
        by (simp add: length_decimal_large)
    qed
  qed
qed

lemma snoc_less_snoc:
  fixes xs ys :: "'a::linorder list"
  shows "length xs = length ys \<Longrightarrow> xs @ [x] < ys @ [y] \<longleftrightarrow> xs < ys \<or> xs = ys \<and> x < y"
  by (induction xs ys rule: list_induct2) auto

lemma nat_less_div_mod_10:
  fixes a b :: nat
  shows "a < b \<longleftrightarrow> a div 10 < b div 10 \<or> a div 10 = b div 10 \<and> a mod 10 < b mod 10"
proof -
  define qa ra qb rb where "qa = a div 10" and "ra = a mod 10" and "qb = b div 10" and "rb = b mod 10"
  have "a = 10 * qa + ra" "b = 10 * qb + rb" "ra < 10" "rb < 10"
    by (simp_all add: qa_def ra_def qb_def rb_def)
  then have "a < b \<longleftrightarrow> qa < qb \<or> qa = qb \<and> ra < rb"
    by linarith
  then show ?thesis
    by (simp only: qa_def ra_def qb_def rb_def)
qed

lemma nat_eq_div_mod_10:
  fixes a b :: nat
  shows "a = b \<longleftrightarrow> a div 10 = b div 10 \<and> a mod 10 = b mod 10"
  by (metis div_mult_mod_eq)

lemma decimal_less:
  "length (decimal a) = length (decimal b) \<Longrightarrow>
     (decimal a < decimal b \<longleftrightarrow> a < b) \<and> (decimal a = decimal b \<longleftrightarrow> a = b)"
proof (induction a arbitrary: b rule: decimal.induct)
  case (1 a)
  show ?case
  proof (cases "a < 10")
    case True
    with "1.prems" have b: "b < 10"
      by (cases "b < 10") (simp_all add: length_decimal_small length_decimal_large decimal_nonempty)
    have "decimal a = [digit a]" "decimal b = [digit b]"
      using True b by (simp_all add: decimal.simps)
    with True b show ?thesis
      by (simp add: digit_less digit_eq)
  next
    case False
    with "1.prems" have b: "\<not> b < 10"
      by (cases "b < 10") (simp_all add: length_decimal_small length_decimal_large decimal_nonempty)
    from False b "1.prems" have len: "length (decimal (a div 10)) = length (decimal (b div 10))"
      by (simp add: length_decimal_large)
    note IH = "1.IH" [OF False len]
    have da: "decimal a = decimal (a div 10) @ [digit (a mod 10)]"
      using False by (subst decimal.simps) simp
    have db: "decimal b = decimal (b div 10) @ [digit (b mod 10)]"
      using b by (subst decimal.simps) simp
    have "decimal a < decimal b \<longleftrightarrow>
        decimal (a div 10) < decimal (b div 10) \<or>
        decimal (a div 10) = decimal (b div 10) \<and> digit (a mod 10) < digit (b mod 10)"
      using len by (simp add: da db snoc_less_snoc)
    also have "\<dots> \<longleftrightarrow> a div 10 < b div 10 \<or> a div 10 = b div 10 \<and> a mod 10 < b mod 10"
      using IH by (simp add: digit_less)
    also have "\<dots> \<longleftrightarrow> a < b"
      by (rule nat_less_div_mod_10 [symmetric])
    finally have less: "decimal a < decimal b \<longleftrightarrow> a < b" .
    have "decimal a = decimal b \<longleftrightarrow>
        decimal (a div 10) = decimal (b div 10) \<and> digit (a mod 10) = digit (b mod 10)"
      by (simp add: da db)
    also have "\<dots> \<longleftrightarrow> a div 10 = b div 10 \<and> a mod 10 = b mod 10"
      using IH by (simp add: digit_eq)
    also have "\<dots> \<longleftrightarrow> a = b"
      by (rule nat_eq_div_mod_10 [symmetric])
    finally have "decimal a = decimal b \<longleftrightarrow> a = b" .
    with less show ?thesis
      by simp
  qed
qed

lemma first_desc_None: "first_desc key rows = None \<longleftrightarrow> rows = []"
  by (induction rows) (auto split: option.splits)

lemma first_desc_Some:
  "first_desc key rows = Some m \<Longrightarrow> m \<in> set rows \<and> (\<forall>r\<in>set rows. key r \<le> key m)"
proof (induction rows arbitrary: m)
  case Nil
  then show ?case by simp
next
  case (Cons r rs)
  show ?case
  proof (cases "first_desc key rs")
    case None
    then have "rs = []"
      by (simp add: first_desc_None)
    with Cons.prems show ?thesis
      by simp
  next
    case (Some m')
    from Cons.IH [OF Some] have m': "m' \<in> set rs" and top: "\<forall>x\<in>set rs. key x \<le> key m'"
      by simp_all
    show ?thesis
    proof (cases "key r < key m'")
      case True
      with Some Cons.prems have "m = m'"
        by simp
      with m' top True show ?thesis
        by auto
    next
      case False
      with Some Cons.prems have "m = r"
        by simp
      with top False show ?thesis
        by (auto intro: order_trans)
    qed
  qed
qed

lemma multifyWithoutRecordNotFound_simps:
  "multifyWithoutRecordNotFound [] = None"
  "multifyWithoutRecordNotFound [ErrRecordNotFound] = None"
  "multifyWithoutRecordNotFound [DriverError msg] = Some (DriverError msg)"
  by (simp_all add: multifyWithoutRecordNotFound_def)

lemma multify_simps:
  "multify [] = None"
  "multify [DriverError msg] = Some (DriverError msg)"
  by (simp_all add: multify_def)

lemma well_formed_NewIndexableBlockNumber: "well_formed_head (NewIndexableBlockNumber n hash)"
  by (simp add: well_formed_head_def NewIndexableBlockNumber_def)

lemma head_order_le:
  assumes "well_formed_head a" and "well_formed_head b"
  shows "head_order a \<le> head_order b \<longleftrightarrow> Number a \<le> Number b"
proof (cases "length (decimal (Number a))" "length (decimal (Number b))" rule: linorder_cases)
  case less
  then have "\<not> Number b \<le> Number a"
    using length_decimal_mono [of "Number b" "Number a"] by auto
  with less assms show ?thesis
    by (simp add: head_order_def well_formed_head_def)
next
  case equal
  from decimal_less [OF equal]
  have "decimal (Number a) \<le> decimal (Number b) \<longleftrightarrow> Number a \<le> Number b"
    by (auto simp: le_less)
  with equal assms show ?thesis
    by (simp add: head_order_def well_formed_head_def)
next
  case greater
  then have "\<not> Number a \<le> Number b"
    using length_decimal_mono [of "Number a" "Number b"] by auto
  with greater assms show ?thesis
    by (simp add: head_order_def well_formed_head_def)
qed

lemma heads_SaveHead_calls:
  "indexable_block_numbers (SaveHead_calls db calls) =
     indexable_block_numbers db @ map snd (filter (\<lambda>c. fst c = None) calls)"
  by (induction calls arbitrary: db) (auto simp: SaveHead_def split: option.splits)

lemma LastHead_well_formed:
  assumes wf: "\<forall>n\<in>set (indexable_block_numbers db). well_formed_head n"
  shows "LastHead None db =
     (if indexable_block_numbers db = [] then zero_IndexableBlockNumber else fst (LastHead None db), None) \<and>
     (indexable_block_numbers db \<noteq> [] \<longrightarrow>
        fst (LastHead None db) \<in> set (indexable_block_numbers db) \<and>
        (\<forall>n\<in>set (indexable_block_numbers db). Number n \<le> Number (fst (LastHead None db))))"
proof (cases "first_desc head_order (indexable_block_numbers db)")
  case None
  then have "indexable_block_numbers db = []"
    by (simp add: first_desc_None)
  with None show ?thesis
    by (simp add: LastHead_def First_def multifyWithoutRecordNotFound_simps)
next
  case (Some m)
  from first_desc_Some [OF Some]
  have m: "m \<in> set (indexable_block_numbers db)"
    and top: "\<forall>n\<in>set (indexable_block_numbers db). head_order n \<le> head_order m"
    by simp_all
  from m have nonempty: "indexable_block_numbers db \<noteq> []"
    by auto
  from Some have last: "LastHead None db = (m, None)"
    by (simp add: LastHead_def First_def multifyWithoutRecordNotFound_simps)
  have "Number n \<le> Number m" if "n \<in> set (indexable_block_numbers db)" for n
    using that top wf m head_order_le [of n m] by blast
  with m nonempty last show ?thesis
    by simp
qed

text \<open>
  C5: after any sequence of \<open>SaveHead\<close> calls with well-formed heads, on a database
  whose heads are well formed, \<open>LastHead\<close> (when the database answers its query)
  returns no error and, of the heads that were saved, one whose block number is
  greatest: the order by digit count and then by the text of the number is the
  numeric order of the block numbers. When no head was saved it returns the empty
  head and no error.
\<close>

theorem LastHead_greatest:
  assumes "\<forall>n\<in>set (indexable_block_numbers db). well_formed_head n"
    and "\<forall>c\<in>set calls. well_formed_head (snd c)"
  shows "\<exists>last. LastHead None (SaveHead_calls db calls) = (last, None) \<and>
     (let saved = indexable_block_numbers db @ map snd (filter (\<lambda>c. fst c = None) calls) in
      if saved = [] then last = zero_IndexableBlockNumber
      else last \<in> set saved \<and> (\<forall>n\<in>set saved. Number n \<le> Number last))"
proof -
  let ?db = "SaveHead_calls db calls"
  have rows: "indexable_block_numbers ?db =
      indexable_block_numbers db @ map snd (filter (\<lambda>c. fst c = None) calls)"
    by (rule heads_SaveHead_calls)
  have "\<forall>n\<in>set (indexable_block_numbers ?db). well_formed_head n"
    using assms by (auto simp: rows)
  from LastHead_well_formed [OF this] show ?thesis
    unfolding rows Let_def
    by (cases "LastHead None (SaveHead_calls db calls)") (auto split: if_splits)
qed

theorem LastHead_greatest_witness:
  "well_formed_head (NewIndexableBlockNumber 9 1) \<and>
   well_formed_head (NewIndexableBlockNumber 10 2) \<and>
   well_formed_head (NewIndexableBlockNumber 11 3) \<and>
   LastHead None (SaveHead_calls empty_DB
      [(None, NewIndexableBlockNumber 9 1), (None, NewIndexableBlockNumber 10 2),
       (Some ''disk full'', NewIndexableBlockNumber 11 3)]) =
     (\<lparr>Number = 10, Digits = 2, Head_Hash = 2\<rparr>, None) \<and>
   LastHead None (SaveHead_calls empty_DB []) = (zero_IndexableBlockNumber, None)"
proof -
  have wf: "well_formed_head (NewIndexableBlockNumber 9 1)"
    "well_formed_head (NewIndexableBlockNumber 10 2)"
    "well_formed_head (NewIndexableBlockNumber 11 3)"
    by (rule well_formed_NewIndexableBlockNumber)+
  have d: "decimal 9 = ''9''" "decimal 10 = ''10''"
    by code_simp+
  have "LastHead None (SaveHead_calls empty_DB
      [(None, NewIndexableBlockNumber 9 1), (None, NewIndexableBlockNumber 10 2),
       (Some ''disk full'', NewIndexableBlockNumber 11 3)]) =
     (\<lparr>Number = 10, Digits = 2, Head_Hash = 2\<rparr>, None)"
    using LastHead_greatest [of empty_DB
      "[(None, NewIndexableBlockNumber 9 1), (None, NewIndexableBlockNumber 10 2),
        (Some ''disk full'', NewIndexableBlockNumber 11 3)]"] wf
    by (simp add: empty_DB_def SaveHead_def Error_def LastHead_def First_def head_order_def
        NewIndexableBlockNumber_def d multifyWithoutRecordNotFound_simps)
  moreover have "LastHead None (SaveHead_calls empty_DB []) = (zero_IndexableBlockNumber, None)"
    by (simp add: empty_DB_def LastHead_def First_def multifyWithoutRecordNotFound_simps)
  ultimately show ?thesis
    using wf by simp
qed

section \<open>Properties of the last nonce\<close>

text \<open>
  C4: when the database answers the query, \<open>GetLastNonce\<close> returns no error and,
  for an address with persisted transactions, the nonce of one of them that no other
  nonce of that address exceeds; for an address without persisted transactions it
  returns the nonce 0.
\<close>

theorem GetLastNonce_highest:
  "\<exists>nonce. GetLastNonce None db address = (nonce, None) \<and>
     (let nonces = map Nonce (filter (\<lambda>t. From t = address) (txes db)) in
      if nonces = [] then nonce = 0
      else nonce \<in> set nonces \<and> (\<forall>n\<in>set nonces. n \<le> nonce))"
proof -
  define rows where "rows = filter (\<lambda>t. From t = address) (txes db)"
  have result: "GetLastNonce None db address =
      (case first_desc Nonce rows of None \<Rightarrow> 0 | Some t \<Rightarrow> Nonce t, None)"
    by (cases "first_desc Nonce rows")
      (simp_all add: GetLastNonce_def First_def zero_Tx_def rows_def
        multifyWithoutRecordNotFound_simps)
  show ?thesis
  proof (cases "first_desc Nonce rows")
    case None
    then have "rows = []"
      by (simp add: first_desc_None)
    with None result show ?thesis
      by (simp add: rows_def [symmetric])
  next
    case (Some m)
    from first_desc_Some [OF Some]
    have m: "m \<in> set rows" and top: "\<forall>t\<in>set rows. Nonce t \<le> Nonce m"
      by simp_all
    from m have "rows \<noteq> []"
      by auto
    with m top Some result show ?thesis
      by (simp add: rows_def [symmetric] Let_def)
  qed
qed

theorem GetLastNonce_highest_witness:
  "GetLastNonce None
     (empty_DB\<lparr>txes :=
        [zero_Tx\<lparr>Tx_ID := 1, From := 1, Nonce := 5\<rparr>,
         zero_Tx\<lparr>Tx_ID := 2, From := 1, Nonce := 7\<rparr>,
         zero_Tx\<lparr>Tx_ID := 3, From := 2, Nonce := 9\<rparr>]\<rparr>) 1 = (7, None) \<and>
   GetLastNonce None empty_DB 1 = (0, None)"
  using GetLastNonce_highest [of "empty_DB\<lparr>txes :=
        [zero_Tx\<lparr>Tx_ID := 1, From := 1, Nonce := 5\<rparr>,
         zero_Tx\<lparr>Tx_ID := 2, From := 1, Nonce := 7\<rparr>,
         zero_Tx\<lparr>Tx_ID := 3, From := 2, Nonce := 9\<rparr>]\<rparr>" 1]
    GetLastNonce_highest [of empty_DB 1]
  by (simp add: empty_DB_def zero_Tx_def GetLastNonce_def First_def
      multifyWithoutRecordNotFound_simps)

section \<open>Properties of the deletion of a job run\<close>

lemma Error_simps:
  "Error [] = None"
  "Error [e] = Some e"
  by (simp_all add: Error_def)

text \<open>
  C9: \<open>DeleteJobRun\<close> returns no error exactly when the database executes both
  deletions and the commit; the database then differs from the one before in that the
  job runs with the given id and the task runs whose job run id is the given id are
  gone. When it returns an error (a deletion or the commit failed) the database is the
  one before the call: no job run and no task run is deleted.
\<close>

theorem DeleteJobRun_atomic:
  "(fst (DeleteJobRun drv1 drv2 drv3 db ID) = None \<longleftrightarrow> drv1 = None \<and> drv2 = None \<and> drv3 = None) \<and>
   (fst (DeleteJobRun drv1 drv2 drv3 db ID) = None \<longrightarrow>
      snd (DeleteJobRun drv1 drv2 drv3 db ID) =
        db\<lparr>job_runs := filter (\<lambda>r. JobRun_ID r \<noteq> ID) (job_runs db),
           task_runs := filter (\<lambda>r. JobRunID r \<noteq> ID) (task_runs db)\<rparr>) \<and>
   (fst (DeleteJobRun drv1 drv2 drv3 db ID) \<noteq> None \<longrightarrow>
      snd (DeleteJobRun drv1 drv2 drv3 db ID) = db)"
proof (cases drv1)
  case failed1: (Some msg)
  then show ?thesis
    by (simp add: DeleteJobRun_def Delete_def Error_simps)
next
  case ok1: None
  show ?thesis
  proof (cases drv2)
    case (Some msg)
    with ok1 show ?thesis
      by (simp add: DeleteJobRun_def Delete_def Error_simps)
  next
    case ok2: None
    show ?thesis
    proof (cases drv3)
      case (Some msg)
      with ok1 ok2 show ?thesis
        by (simp add: DeleteJobRun_def Delete_def Commit_def Error_simps)
    next
      case None
      with ok1 ok2 show ?thesis
        by (simp add: DeleteJobRun_def Delete_def Commit_def Error_simps)
    qed
  qed
qed

theorem DeleteJobRun_atomic_witness:
  "DeleteJobRun None None None
     (empty_DB\<lparr>job_runs := [\<lparr>JobRun_ID = ''r1'', JobRun_JobSpecID = ''j'', JobRun_Status = ''completed''\<rparr>,
                             \<lparr>JobRun_ID = ''r2'', JobRun_JobSpecID = ''j'', JobRun_Status = ''errored''\<rparr>],
                task_runs := [\<lparr>TaskRun_ID = ''t1'', JobRunID = ''r1'', TaskRun_Status = ''completed''\<rparr>,
                              \<lparr>TaskRun_ID = ''t2'', JobRunID = ''r2'', TaskRun_Status = ''errored''\<rparr>]\<rparr>) ''r1'' =
     (None,
      empty_DB\<lparr>job_runs := [\<lparr>JobRun_ID = ''r2'', JobRun_JobSpecID = ''j'', JobRun_Status = ''errored''\<rparr>],
                task_runs := [\<lparr>TaskRun_ID = ''t2'', JobRunID = ''r2'', TaskRun_Status = ''errored''\<rparr>]\<rparr>) \<and>
   DeleteJobRun None (Some ''database is locked'') None
     (empty_DB\<lparr>job_runs := [\<lparr>JobRun_ID = ''r1'', JobRun_JobSpecID = ''j'', JobRun_Status = ''completed''\<rparr>],
                task_runs := [\<lparr>TaskRun_ID = ''t1'', JobRunID = ''r1'', TaskRun_Status = ''completed''\<rparr>]\<rparr>) ''r1'' =
     (Some (DriverError ''database is locked''),
      empty_DB\<lparr>job_runs := [\<lparr>JobRun_ID = ''r1'', JobRun_JobSpecID = ''j'', JobRun_Status = ''completed''\<rparr>],
                task_runs := [\<lparr>TaskRun_ID = ''t1'', JobRunID = ''r1'', TaskRun_Status = ''completed''\<rparr>]\<rparr>)"
  using DeleteJobRun_atomic [of None None None
     "empty_DB\<lparr>job_runs := [\<lparr>JobRun_ID = ''r1'', JobRun_JobSpecID = ''j'', JobRun_Status = ''completed''\<rparr>,
                             \<lparr>JobRun_ID = ''r2'', JobRun_JobSpecID = ''j'', JobRun_Status = ''errored''\<rparr>],
                task_runs := [\<lparr>TaskRun_ID = ''t1'', JobRunID = ''r1'', TaskRun_Status = ''completed''\<rparr>,
                              \<lparr>TaskRun_ID = ''t2'', JobRunID = ''r2'', TaskRun_Status = ''errored''\<rparr>]\<rparr>" "''r1''"]
    DeleteJobRun_atomic [of None "Some ''database is locked''" None
     "empty_DB\<lparr>job_runs := [\<lparr>JobRun_ID = ''r1'', JobRun_JobSpecID = ''j'', JobRun_Status = ''completed''\<rparr>],
                task_runs := [\<lparr>TaskRun_ID = ''t1'', JobRunID = ''r1'', TaskRun_Status = ''completed''\<rparr>]\<rparr>" "''r1''"]
  by (simp add: prod_eq_iff empty_DB_def DeleteJobRun_def Delete_def Error_simps)

section \<open>Properties of the enumeration of the job specs\<close>

lemma range_cb_stopped: "\<not> fst (range_cb cb xs s) \<Longrightarrow> range_cb cb (xs @ ys) s = range_cb cb xs s"
  by (induction xs arbitrary: s) auto

lemma range_cb_continued:
  "fst (range_cb cb xs s) \<Longrightarrow> range_cb cb (xs @ ys) s = range_cb cb ys (snd (range_cb cb xs s))"
  by (induction xs arbitrary: s) (auto split: if_splits)

lemma Find_None: "Find None limit offset rows = (take limit (drop offset rows), [])"
  by (simp add: Find_def)

lemma Jobs_loop_single_pass:
  "\<forall>offset. drv offset = None \<Longrightarrow>
     Jobs_loop drv db cb offset s = (None, snd (range_cb cb (drop offset (job_specs db)) s))"
proof (induction drv db cb offset s rule: Jobs_loop.induct)
  case (1 drv db cb offset s)
  define batch where "batch = take 1000 (drop offset (job_specs db))"
  define rest where "rest = drop (offset + 1000) (job_specs db)"
  from "1.prems" have found: "Find (drv offset) 1000 offset (job_specs db) = (batch, [])"
    by (simp add: Find_None batch_def)
  have "drop 1000 (drop offset (job_specs db)) = rest"
    by (simp add: rest_def add.commute)
  then have split: "drop offset (job_specs db) = batch @ rest"
    using append_take_drop_id [of 1000 "drop offset (job_specs db)"]
    by (simp only: batch_def)
  show ?case
  proof (cases "fst (range_cb cb batch s)")
    case False
    then have "Jobs_loop drv db cb offset s = (None, snd (range_cb cb batch s))"
      by (subst Jobs_loop.simps) (simp add: found multify_simps)
    with False show ?thesis
      by (simp add: split range_cb_stopped)
  next
    case True
    show ?thesis
    proof (cases "length batch < 1000")
      case short: True
      then have "batch = drop offset (job_specs db)"
        by (auto simp: batch_def)
      moreover from True short have "Jobs_loop drv db cb offset s = (None, snd (range_cb cb batch s))"
        by (subst Jobs_loop.simps) (simp add: found multify_simps)
      ultimately show ?thesis
        by simp
    next
      case full: False
      with True have "Jobs_loop drv db cb offset s =
          Jobs_loop drv db cb (offset + 1000) (snd (range_cb cb batch s))"
        by (subst Jobs_loop.simps) (simp add: found multify_simps)
      also have "\<dots> = (None, snd (range_cb cb rest (snd (range_cb cb batch s))))"
      proof -
        have c1: "\<not> multify (snd (Find (drv offset) 1000 offset (job_specs db))) \<noteq> None"
          by (simp add: found multify_simps)
        have c2: "\<not> \<not> fst (range_cb cb (fst (Find (drv offset) 1000 offset (job_specs db))) s)"
          using True by (simp add: found)
        have c3: "\<not> length (fst (Find (drv offset) 1000 offset (job_specs db))) < 1000"
          using full by (simp add: found)
        from "1.IH" [OF c1 c2 c3 "1.prems"] show ?thesis
          by (simp only: found fst_conv rest_def)
      qed
      finally show ?thesis
        using True by (simp add: split range_cb_continued)
    qed
  qed
qed

lemma range_cb_recording:
  "snd (range_cb (recording cb) xs (calls, s)) =
     (calls @ fst (each_until_false cb xs s), snd (each_until_false cb xs s))"
  by (induction xs arbitrary: calls s) (simp_all add: recording_def)

lemma each_until_false_pure:
  "fst (each_until_false (\<lambda>s j. (p j, s)) xs s) = takeWhile p xs @ take 1 (dropWhile p xs)"
  by (induction xs) simp_all

text \<open>
  C7: when the database answers every query, \<open>Jobs\<close> returns nil and has invoked
  the callback as \<open>each_until_false\<close> describes: once on each stored job spec, in
  order, up to and including the first for which it answers false, whatever the number
  of job specs is. For a callback without state these are the job specs before the
  first on which it answers false, and that one.
\<close>

theorem Jobs_each_until_false:
  assumes "\<forall>offset. drv offset = None"
  shows "Jobs drv db (recording cb) ([], s) = (None, each_until_false cb (job_specs db) s) \<and>
     fst (each_until_false (\<lambda>s j. (p j, s)) (job_specs db) s) =
       takeWhile p (job_specs db) @ take 1 (dropWhile p (job_specs db))"
  using Jobs_loop_single_pass [OF assms, of db "recording cb" 0 "([], s)"]
  by (simp add: Jobs_def range_cb_recording each_until_false_pure)

theorem Jobs_each_until_false_witness:
  "Jobs (\<lambda>offset. None)
     (empty_DB\<lparr>job_specs :=
        [\<lparr>JobSpec_ID = ''a'', StartAt = None, EndAt = None\<rparr>,
         \<lparr>JobSpec_ID = ''b'', StartAt = None, EndAt = None\<rparr>,
         \<lparr>JobSpec_ID = ''c'', StartAt = None, EndAt = None\<rparr>]\<rparr>)
     (recording (\<lambda>s j. (JobSpec_ID j \<noteq> ''b'', s))) ([], ()) =
   (None,
    [\<lparr>JobSpec_ID = ''a'', StartAt = None, EndAt = None\<rparr>,
     \<lparr>JobSpec_ID = ''b'', StartAt = None, EndAt = None\<rparr>], ()) \<and>
   Jobs (\<lambda>offset. None)
     (empty_DB\<lparr>job_specs := replicate 2500 \<lparr>JobSpec_ID = ''a'', StartAt = None, EndAt = None\<rparr>\<rparr>)
     (recording (\<lambda>s j. (True, s))) ([], ()) =
   (None, replicate 2500 \<lparr>JobSpec_ID = ''a'', StartAt = None, EndAt = None\<rparr>, ())"
proof -
  have all: "takeWhile (\<lambda>j. True) xs = xs" for xs :: "JobSpec list"
    by (induction xs) simp_all
  have "Jobs (\<lambda>offset. None)
     (empty_DB\<lparr>job_specs :=
        [\<lparr>JobSpec_ID = ''a'', StartAt = None, EndAt = None\<rparr>,
         \<lparr>JobSpec_ID = ''b'', StartAt = None, EndAt = None\<rparr>,
         \<lparr>JobSpec_ID = ''c'', StartAt = None, EndAt = None\<rparr>]\<rparr>)
     (recording (\<lambda>s j. (JobSpec_ID j \<noteq> ''b'', s))) ([], ()) =
   (None,
    [\<lparr>JobSpec_ID = ''a'', StartAt = None, EndAt = None\<rparr>,
     \<lparr>JobSpec_ID = ''b'', StartAt = None, EndAt = None\<rparr>], ())"
    using Jobs_each_until_false [of "\<lambda>offset. None"
        "empty_DB\<lparr>job_specs :=
        [\<lparr>JobSpec_ID = ''a'', StartAt = None, EndAt = None\<rparr>,
         \<lparr>JobSpec_ID = ''b'', StartAt = None, EndAt = None\<rparr>,
         \<lparr>JobSpec_ID = ''c'', StartAt = None, EndAt = None\<rparr>]\<rparr>"
        "\<lambda>s j. (JobSpec_ID j \<noteq> ''b'', s)" "()" "\<lambda>j. JobSpec_ID j \<noteq> ''b''"]
    by simp
  moreover have "Jobs (\<lambda>offset. None)
     (empty_DB\<lparr>job_specs := replicate 2500 \<lparr>JobSpec_ID = ''a'', StartAt = None, EndAt = None\<rparr>\<rparr>)
     (recording (\<lambda>s j. (True, s))) ([], ()) =
   (None, replicate 2500 \<lparr>JobSpec_ID = ''a'', StartAt = None, EndAt = None\<rparr>, ())"
    using Jobs_each_until_false [of "\<lambda>offset. None"
        "empty_DB\<lparr>job_specs := replicate 2500 \<lparr>JobSpec_ID = ''a'', StartAt = None, EndAt = None\<rparr>\<rparr>"
        "\<lambda>s j. (True, s)" "()" "\<lambda>j. True"]
    by (simp add: all prod_eq_iff)
  ultimately show ?thesis
    by (rule conjI)
qed

section \<open>Properties of the initiator's flag\<close>

lemma Update_ran_None:
  "Update_ran None i rows =
     (i\<lparr>Ran := True\<rparr>,
      map (\<lambda>r. if Initiator_ID i = [] \<or> Initiator_ID r = Initiator_ID i then r\<lparr>Ran := True\<rparr> else r) rows,
      [])"
  by (simp add: Update_ran_def)

lemma marked_rows_frame:
  "map (\<lambda>r. r\<lparr>Ran := True\<rparr>) (map (\<lambda>r. if c r then r\<lparr>Ran := True\<rparr> else r) rows) =
     map (\<lambda>r. r\<lparr>Ran := True\<rparr>) rows"
  by (induction rows) simp_all

lemma marked_rows_others:
  "filter (\<lambda>r. \<not> c r) (map (\<lambda>r. if c r then r\<lparr>Ran := True\<rparr> else r) rows) = filter (\<lambda>r. \<not> c r) rows"
  if "\<And>r. c (r\<lparr>Ran := True\<rparr>) = c r"
  using that by (induction rows) simp_all

text \<open>
  C6: when the database executes the update, \<open>MarkRan\<close> returns no error and sets
  the \<open>Ran\<close> flag of the initiator it was given, changing no other field of it. In
  the table, every row with the initiator's id then has the flag, a row that had the
  id is the same row with the flag set, no row differs from before in a field other
  than the flag, no other table changes and, for an initiator whose id is not blank, the
  rows of other initiators are as before. The flag is read back from the table after a
  restart.
\<close>

theorem MarkRan_sets_ran:
  "fst (MarkRan None db i) = i\<lparr>Ran := True\<rparr> \<and>
   fst (snd (MarkRan None db i)) = None \<and>
   (let db' = snd (snd (MarkRan None db i)) in
      db' = db\<lparr>initiators := initiators db'\<rparr> \<and>
      map (\<lambda>r. r\<lparr>Ran := True\<rparr>) (initiators db') = map (\<lambda>r. r\<lparr>Ran := True\<rparr>) (initiators db) \<and>
      (\<forall>r\<in>set (initiators db'). Initiator_ID r = Initiator_ID i \<longrightarrow> Ran r) \<and>
      (\<forall>r\<in>set (initiators db). Initiator_ID r = Initiator_ID i \<longrightarrow> r\<lparr>Ran := True\<rparr> \<in> set (initiators db')) \<and>
      (Initiator_ID i \<noteq> [] \<longrightarrow>
         filter (\<lambda>r. Initiator_ID r \<noteq> Initiator_ID i) (initiators db') =
         filter (\<lambda>r. Initiator_ID r \<noteq> Initiator_ID i) (initiators db)))"
proof -
  define c :: "Initiator \<Rightarrow> bool"
    where "c r \<longleftrightarrow> Initiator_ID i = [] \<or> Initiator_ID r = Initiator_ID i" for r
  define rows' where "rows' = map (\<lambda>r. if c r then r\<lparr>Ran := True\<rparr> else r) (initiators db)"
  have result: "MarkRan None db i = (i\<lparr>Ran := True\<rparr>, None, db\<lparr>initiators := rows'\<rparr>)"
    by (simp add: MarkRan_def Update_ran_None multify_simps rows'_def c_def)
  have frame: "map (\<lambda>r. r\<lparr>Ran := True\<rparr>) rows' = map (\<lambda>r. r\<lparr>Ran := True\<rparr>) (initiators db)"
    unfolding rows'_def by (rule marked_rows_frame)
  have flag: "\<forall>r\<in>set rows'. Initiator_ID r = Initiator_ID i \<longrightarrow> Ran r"
    by (auto simp: rows'_def c_def)
  have kept: "\<forall>r\<in>set (initiators db). Initiator_ID r = Initiator_ID i \<longrightarrow> r\<lparr>Ran := True\<rparr> \<in> set rows'"
    by (force simp: rows'_def c_def)
  have others: "filter (\<lambda>r. Initiator_ID r \<noteq> Initiator_ID i) rows' =
      filter (\<lambda>r. Initiator_ID r \<noteq> Initiator_ID i) (initiators db)"
    if "Initiator_ID i \<noteq> []"
  proof -
    from that have "c r \<longleftrightarrow> Initiator_ID r = Initiator_ID i" for r
      by (simp add: c_def)
    then have "(\<lambda>r. Initiator_ID r \<noteq> Initiator_ID i) = (\<lambda>r. \<not> c r)"
      by simp
    moreover have "filter (\<lambda>r. \<not> c r) rows' = filter (\<lambda>r. \<not> c r) (initiators db)"
      unfolding rows'_def by (rule marked_rows_others) (simp add: c_def)
    ultimately show ?thesis
      by simp
  qed
  show ?thesis
    using frame flag kept others by (simp add: result Let_def)
qed

theorem MarkRan_sets_ran_witness:
  "MarkRan None
     (empty_DB\<lparr>initiators :=
        [\<lparr>Initiator_ID = ''i1'', Initiator_JobSpecID = ''j1'', Initiator_Type = ''runat'',
          Schedule = [], Initiator_Time = 1500, Ran = False, Initiator_Address = 0\<rparr>,
         \<lparr>Initiator_ID = ''i2'', Initiator_JobSpecID = ''j2'', Initiator_Type = ''runat'',
          Schedule = [], Initiator_Time = 1600, Ran = False, Initiator_Address = 0\<rparr>]\<rparr>)
     \<lparr>Initiator_ID = ''i1'', Initiator_JobSpecID = ''j1'', Initiator_Type = ''runat'',
      Schedule = [], Initiator_Time = 1500, Ran = False, Initiator_Address = 0\<rparr> =
   (\<lparr>Initiator_ID = ''i1'', Initiator_JobSpecID = ''j1'', Initiator_Type = ''runat'',
     Schedule = [], Initiator_Time = 1500, Ran = True, Initiator_Address = 0\<rparr>,
    None,
    empty_DB\<lparr>initiators :=
        [\<lparr>Initiator_ID = ''i1'', Initiator_JobSpecID = ''j1'', Initiator_Type = ''runat'',
          Schedule = [], Initiator_Time = 1500, Ran = True, Initiator_Address = 0\<rparr>,
         \<lparr>Initiator_ID = ''i2'', Initiator_JobSpecID = ''j2'', Initiator_Type = ''runat'',
          Schedule = [], Initiator_Time = 1600, Ran = False, Initiator_Address = 0\<rparr>]\<rparr>)"
  using MarkRan_sets_ran [of
     "empty_DB\<lparr>initiators :=
        [\<lparr>Initiator_ID = ''i1'', Initiator_JobSpecID = ''j1'', Initiator_Type = ''runat'',
          Schedule = [], Initiator_Time = 1500, Ran = False, Initiator_Address = 0\<rparr>,
         \<lparr>Initiator_ID = ''i2'', Initiator_JobSpecID = ''j2'', Initiator_Type = ''runat'',
          Schedule = [], Initiator_Time = 1600, Ran = False, Initiator_Address = 0\<rparr>]\<rparr>"
     "\<lparr>Initiator_ID = ''i1'', Initiator_JobSpecID = ''j1'', Initiator_Type = ''runat'',
      Schedule = [], Initiator_Time = 1500, Ran = False, Initiator_Address = 0\<rparr>"]
  by (simp add: empty_DB_def MarkRan_def Update_ran_None multify_simps)

section \<open>Properties of the creation of a Tx\<close>

lemma fold_max_ge: "a \<le> fold max ids (a::nat)"
  by (induction ids arbitrary: a) (auto intro: order_trans [OF max.cobounded2])

lemma fold_max_bound: "x \<in> set ids \<Longrightarrow> x \<le> fold max ids (a::nat)"
proof (induction ids arbitrary: a)
  case Nil
  then show ?case by simp
next
  case (Cons y ys)
  show ?case
  proof (cases "x = y")
    case True
    have "y \<le> max y a"
      by simp
    also have "\<dots> \<le> fold max ys (max y a)"
      by (rule fold_max_ge)
    finally show ?thesis
      using True by simp
  next
    case False
    with Cons.prems have "x \<in> set ys"
      by simp
    from Cons.IH [OF this] show ?thesis
      by simp
  qed
qed

lemma next_id_fresh: "next_id ids \<noteq> 0 \<and> next_id ids \<notin> set ids"
  using fold_max_bound [of "next_id ids" ids 0] by (auto simp: next_id_def)

text \<open>
  C1, as the claim states it, at a gas limit of zero and the negative value \<open>-1\<close>:
  \<open>CreateTx\<close> returns no error, and the Tx is in the database after the call.
\<close>

theorem CreateTx_unvalidated_counterexample:
  "CreateTx None empty_DB 1 7 2 [] (- 1) 0 =
     (\<lparr>Tx_ID = 1, From = 1, To = 2, Data = [], Nonce = 7, Tx_Value = - 1, GasLimit = 0,
       Tx_Confirmed = False, ActiveAttempt = None\<rparr>,
      None,
      empty_DB\<lparr>txes :=
        [\<lparr>Tx_ID = 1, From = 1, To = 2, Data = [], Nonce = 7, Tx_Value = - 1, GasLimit = 0,
          Tx_Confirmed = False, ActiveAttempt = None\<rparr>]\<rparr>)"
  by (simp add: CreateTx_def Save_Tx_def handle_def next_id_def multify_simps empty_DB_def Let_def)

text \<open>
  C1, amended: for every input, \<open>CreateTx\<close> builds a Tx with the given from, nonce,
  to, data, value and gas limit, not confirmed and with no attempt; it checks neither
  the gas limit nor the value. When the database executes the save, it returns no
  error, the Tx has a new id (not blank, and of no Tx stored before) and is appended to
  the stored Txs, and nothing else changes. When the save fails, it returns the
  database's error and the database is as before.
\<close>

theorem CreateTx_persists:
  "(let r = CreateTx drv db from nonce to data val gasLimit;
        tx = fst r; err = fst (snd r); db' = snd (snd r) in
      From tx = from \<and> To tx = to \<and> Nonce tx = nonce \<and> Data tx = data \<and>
      Tx_Value tx = val \<and> GasLimit tx = gasLimit \<and> \<not> Tx_Confirmed tx \<and>
      ActiveAttempt tx = None \<and>
      (drv = None \<longrightarrow>
         err = None \<and> Tx_ID tx \<noteq> 0 \<and> Tx_ID tx \<notin> Tx_ID ` set (txes db) \<and>
         db' = db\<lparr>txes := txes db @ [tx]\<rparr>) \<and>
      (\<forall>msg. drv = Some msg \<longrightarrow> err = Some (DriverError msg) \<and> db' = db))"
proof (cases drv)
  case None
  have "next_id (map Tx_ID (txes db)) \<noteq> 0 \<and> next_id (map Tx_ID (txes db)) \<notin> set (map Tx_ID (txes db))"
    by (rule next_id_fresh)
  with None show ?thesis
    by (simp add: CreateTx_def Save_Tx_def handle_def multify_simps Let_def)
next
  case (Some msg)
  then show ?thesis
    by (simp add: CreateTx_def Save_Tx_def handle_def multify_simps Let_def)
qed

theorem CreateTx_persists_witness:
  "CreateTx None
     (empty_DB\<lparr>txes := [zero_Tx\<lparr>Tx_ID := 4, From := 1, Nonce := 6, GasLimit := 21000\<rparr>]\<rparr>)
     1 7 2 [] 100 21000 =
     (\<lparr>Tx_ID = 5, From = 1, To = 2, Data = [], Nonce = 7, Tx_Value = 100, GasLimit = 21000,
       Tx_Confirmed = False, ActiveAttempt = None\<rparr>,
      None,
      empty_DB\<lparr>txes :=
        [zero_Tx\<lparr>Tx_ID := 4, From := 1, Nonce := 6, GasLimit := 21000\<rparr>,
         \<lparr>Tx_ID = 5, From = 1, To = 2, Data = [], Nonce = 7, Tx_Value = 100, GasLimit = 21000,
          Tx_Confirmed = False, ActiveAttempt = None\<rparr>]\<rparr>) \<and>
   CreateTx (Some ''disk full'') empty_DB 1 7 2 [] 100 21000 =
     (\<lparr>Tx_ID = 0, From = 1, To = 2, Data = [], Nonce = 7, Tx_Value = 100, GasLimit = 21000,
       Tx_Confirmed = False, ActiveAttempt = None\<rparr>,
      Some (DriverError ''disk full''), empty_DB)"
  using CreateTx_persists [of None
      "empty_DB\<lparr>txes := [zero_Tx\<lparr>Tx_ID := 4, From := 1, Nonce := 6, GasLimit := 21000\<rparr>]\<rparr>"
      1 7 2 "[]" 100 21000]
    CreateTx_persists [of "Some ''disk full''" empty_DB 1 7 2 "[]" 100 21000]
  by (simp add: CreateTx_def Save_Tx_def handle_def next_id_def multify_simps empty_DB_def
      zero_Tx_def Let_def)

section \<open>Properties of the attempts of a Tx\<close>

lemma upsert_mem: "r \<in> set (upsert key r xs)"
  by (induction xs) simp_all

lemma upsert_others:
  "filter (\<lambda>x. key x \<noteq> key r) (upsert key r xs) = filter (\<lambda>x. key x \<noteq> key r) xs"
  by (induction xs) simp_all

lemma upsert_keys: "key ` set (upsert key r xs) = insert (key r) (key ` set xs)"
  by (induction xs) auto

lemma AssignTxAttempt_unconfirmed:
  "\<not> Tx_Confirmed tx \<Longrightarrow> \<not> Attempt_Confirmed a \<Longrightarrow>
     AssignTxAttempt tx a = tx\<lparr>ActiveAttempt := Some (Attempt_Hash a)\<rparr>"
  by (cases tx) (simp add: AssignTxAttempt_def)

text \<open>The result of a call whose encoding and both saves succeed.\<close>

lemma AddTxAttempt_success:
  fixes EncodeTxToHex :: "Transaction \<Rightarrow> go_error + string"
    and etx :: Transaction and hex :: string and tx :: Tx and blkNum :: uint64 and db :: DB
  assumes "EncodeTxToHex etx = Inr hex"
  defines "attempt \<equiv> \<lparr>Attempt_Hash = Transaction_Hash etx, TxID = Tx_ID tx,
      GasPrice = Transaction_GasPrice etx, Attempt_Confirmed = False, Hex = hex, SentAt = blkNum\<rparr>"
  defines "tx1 \<equiv> (if Tx_Confirmed tx then tx else tx\<lparr>ActiveAttempt := Some (Transaction_Hash etx)\<rparr>)"
  shows "AddTxAttempt EncodeTxToHex None None db tx etx blkNum =
     (if Tx_ID tx = 0
      then (tx1\<lparr>Tx_ID := next_id (map Tx_ID (txes db))\<rparr>, Some attempt, None,
            db\<lparr>txes := txes db @ [tx1\<lparr>Tx_ID := next_id (map Tx_ID (txes db))\<rparr>],
               tx_attempts := upsert Attempt_Hash attempt (tx_attempts db)\<rparr>)
      else (tx1, Some attempt, None,
            db\<lparr>txes := upsert Tx_ID tx1 (txes db),
               tx_attempts := upsert Attempt_Hash attempt (tx_attempts db)\<rparr>))"
proof -
  have assign: "(if \<not> Tx_Confirmed tx then AssignTxAttempt tx attempt else tx) = tx1"
    by (simp add: tx1_def attempt_def AssignTxAttempt_unconfirmed)
  have id: "Tx_ID tx1 = Tx_ID tx"
    by (simp add: tx1_def)
  show ?thesis
    unfolding AddTxAttempt_def assms(1) sum.case Let_def attempt_def [symmetric] assign
    by (simp add: Save_Tx_def Save_TxAttempt_def handle_def multify_simps id Let_def)
qed

lemma AddTxAttempt_error:
  "fst (snd (snd (AddTxAttempt EncodeTxToHex drv1 drv2 db tx etx blkNum))) = None \<longleftrightarrow>
     (\<exists>hex. EncodeTxToHex etx = Inr hex) \<and> drv1 = None \<and> drv2 = None"
  by (cases "EncodeTxToHex etx"; cases drv1; cases drv2)
    (simp_all add: AddTxAttempt_def Save_Tx_def Save_TxAttempt_def handle_def multify_simps Let_def)

lemma AddTxAttempt_step:
  fixes EncodeTxToHex :: "Transaction \<Rightarrow> go_error + string"
    and etx :: Transaction and tx :: Tx and blkNum :: uint64 and db :: DB
    and drv1 drv2 :: driver
  assumes ok: "fst (snd (snd (AddTxAttempt EncodeTxToHex drv1 drv2 db tx etx blkNum))) = None"
  defines "r \<equiv> AddTxAttempt EncodeTxToHex drv1 drv2 db tx etx blkNum"
  shows "\<exists>attempt. fst (snd r) = Some attempt \<and> Attempt_Hash attempt = Transaction_Hash etx \<and>
      attempt \<in> set (tx_attempts (snd (snd (snd r)))) \<and>
      fst r \<in> set (txes (snd (snd (snd r)))) \<and>
      filter (\<lambda>a. Attempt_Hash a \<noteq> Transaction_Hash etx) (tx_attempts (snd (snd (snd r)))) =
        filter (\<lambda>a. Attempt_Hash a \<noteq> Transaction_Hash etx) (tx_attempts db) \<and>
      Attempt_Hash ` set (tx_attempts db) \<subseteq> Attempt_Hash ` set (tx_attempts (snd (snd (snd r)))) \<and>
      Tx_Confirmed (fst r) = Tx_Confirmed tx \<and>
      ActiveAttempt (fst r) = (if Tx_Confirmed tx then ActiveAttempt tx else Some (Transaction_Hash etx))"
proof -
  from ok obtain hex where enc: "EncodeTxToHex etx = Inr hex" and drv: "drv1 = None" "drv2 = None"
    by (auto simp: AddTxAttempt_error)
  define attempt where "attempt = \<lparr>Attempt_Hash = Transaction_Hash etx, TxID = Tx_ID tx,
      GasPrice = Transaction_GasPrice etx, Attempt_Confirmed = False, Hex = hex, SentAt = blkNum\<rparr>"
  have h: "Attempt_Hash attempt = Transaction_Hash etx"
    by (simp add: attempt_def)
  have others: "filter (\<lambda>a. Attempt_Hash a \<noteq> Transaction_Hash etx) (upsert Attempt_Hash attempt (tx_attempts db)) =
      filter (\<lambda>a. Attempt_Hash a \<noteq> Transaction_Hash etx) (tx_attempts db)"
    using upsert_others [of Attempt_Hash attempt "tx_attempts db"] by (simp only: h)
  have keys: "Attempt_Hash ` set (tx_attempts db) \<subseteq> Attempt_Hash ` set (upsert Attempt_Hash attempt (tx_attempts db))"
    by (auto simp: upsert_keys)
  have stored: "attempt \<in> set (upsert Attempt_Hash attempt (tx_attempts db))"
    by (rule upsert_mem)
  note success = AddTxAttempt_success
    [where EncodeTxToHex = EncodeTxToHex and etx = etx and hex = hex, OF enc, of db tx blkNum,
      folded attempt_def]
  show ?thesis
  proof (cases "Tx_ID tx = 0")
    case True
    with others keys stored h show ?thesis
      by (simp add: r_def drv success)
  next
    case False
    with others keys stored h show ?thesis
      by (simp add: r_def drv success upsert_mem)
  qed
qed

lemma AddTxAttempt_calls_active:
  fixes EncodeTxToHex :: "Transaction \<Rightarrow> go_error + string"
  shows "calls \<noteq> [] \<Longrightarrow> \<not> Tx_Confirmed tx \<Longrightarrow>
     \<forall>e\<in>set (fst (snd (AddTxAttempt_calls EncodeTxToHex db tx calls))). e = None \<Longrightarrow>
     \<not> Tx_Confirmed (fst (AddTxAttempt_calls EncodeTxToHex db tx calls)) \<and>
     ActiveAttempt (fst (AddTxAttempt_calls EncodeTxToHex db tx calls)) =
       Some (Transaction_Hash (fst (snd (snd (last calls))))) \<and>
     Transaction_Hash (fst (snd (snd (last calls)))) \<in>
       Attempt_Hash ` set (tx_attempts (snd (snd (AddTxAttempt_calls EncodeTxToHex db tx calls)))) \<and>
     fst (AddTxAttempt_calls EncodeTxToHex db tx calls) \<in>
       set (txes (snd (snd (AddTxAttempt_calls EncodeTxToHex db tx calls))))"
proof (induction calls arbitrary: db tx)
  case Nil
  then show ?case by simp
next
  case (Cons c cs)
  obtain drv1 drv2 etx blkNum where c: "c = (drv1, drv2, etx, blkNum)"
    by (cases c) auto
  define r where "r = AddTxAttempt EncodeTxToHex drv1 drv2 db tx etx blkNum"
  define rest where "rest = AddTxAttempt_calls EncodeTxToHex (snd (snd (snd r))) (fst r) cs"
  have unfold: "AddTxAttempt_calls EncodeTxToHex db tx (c # cs) =
      (fst rest, fst (snd (snd r)) # fst (snd rest), snd (snd rest))"
    by (simp add: c r_def rest_def Let_def)
  from Cons.prems(3) have ok: "fst (snd (snd r)) = None" and oks: "\<forall>e\<in>set (fst (snd rest)). e = None"
    by (simp_all add: unfold)
  from AddTxAttempt_step [OF ok [unfolded r_def]] Cons.prems(2)
  obtain attempt where step: "Attempt_Hash attempt = Transaction_Hash etx"
      "attempt \<in> set (tx_attempts (snd (snd (snd r))))"
      "fst r \<in> set (txes (snd (snd (snd r))))"
      "\<not> Tx_Confirmed (fst r)"
      "ActiveAttempt (fst r) = Some (Transaction_Hash etx)"
    by (auto simp: r_def)
  show ?case
  proof (cases "cs = []")
    case True
    then have "rest = (fst r, [], snd (snd (snd r)))"
      by (simp add: rest_def)
    then have result: "AddTxAttempt_calls EncodeTxToHex db tx (c # cs) =
        (fst r, [fst (snd (snd r))], snd (snd (snd r)))"
      by (simp only: unfold fst_conv snd_conv)
    have last: "fst (snd (snd (last (c # cs)))) = etx"
      using True by (simp add: c)
    from step(1,2) have "Transaction_Hash etx \<in> Attempt_Hash ` set (tx_attempts (snd (snd (snd r))))"
      by (metis imageI)
    with step(3,4,5) show ?thesis
      by (simp only: result last fst_conv snd_conv) simp
  next
    case False
    from Cons.IH [OF False step(4) oks [unfolded rest_def]] False show ?thesis
      by (simp add: unfold rest_def [symmetric])
  qed
qed

text \<open>
  C2, as the claim states it, at a confirmed Tx whose active attempt has the hash 10:
  a call of \<open>AddTxAttempt\<close> for a signed transaction of hash 11 succeeds and
  persists the new attempt, and the Tx's active attempt is still the one of hash 10.
\<close>

theorem AddTxAttempt_confirmed_counterexample:
  "AddTxAttempt (\<lambda>etx. Inr ''0x0b'') None None
     (empty_DB\<lparr>txes := [zero_Tx\<lparr>Tx_ID := 1, Tx_Confirmed := True, ActiveAttempt := Some 10\<rparr>],
                tx_attempts := [\<lparr>Attempt_Hash = 10, TxID = 1, GasPrice = 20, Attempt_Confirmed = True,
                                 Hex = ''0x0a'', SentAt = 100\<rparr>]\<rparr>)
     (zero_Tx\<lparr>Tx_ID := 1, Tx_Confirmed := True, ActiveAttempt := Some 10\<rparr>)
     \<lparr>Transaction_Hash = 11, Transaction_GasPrice = 30, Transaction_Payload = []\<rparr> 105 =
   (zero_Tx\<lparr>Tx_ID := 1, Tx_Confirmed := True, ActiveAttempt := Some 10\<rparr>,
    Some \<lparr>Attempt_Hash = 11, TxID = 1, GasPrice = 30, Attempt_Confirmed = False,
          Hex = ''0x0b'', SentAt = 105\<rparr>,
    None,
    empty_DB\<lparr>txes := [zero_Tx\<lparr>Tx_ID := 1, Tx_Confirmed := True, ActiveAttempt := Some 10\<rparr>],
               tx_attempts := [\<lparr>Attempt_Hash = 10, TxID = 1, GasPrice = 20, Attempt_Confirmed = True,
                                Hex = ''0x0a'', SentAt = 100\<rparr>,
                               \<lparr>Attempt_Hash = 11, TxID = 1, GasPrice = 30, Attempt_Confirmed = False,
                                Hex = ''0x0b'', SentAt = 105\<rparr>]\<rparr>)"
  by (simp add: AddTxAttempt_def Save_Tx_def Save_TxAttempt_def handle_def multify_simps
      empty_DB_def zero_Tx_def Let_def)

text \<open>
  C2, amended: every successful \<open>AddTxAttempt\<close> call persists the newly created
  attempt and the Tx; every attempt stored before under another hash is retained as it
  was, and no hash stored before is lost. On a Tx that is not confirmed the new attempt
  becomes the Tx's active attempt; on a confirmed Tx the active attempt stays the one
  it was. After any non-empty sequence of successful calls on a Tx that was not
  confirmed, the Tx has one active attempt, the attempt of the last call, and that
  attempt and the Tx are stored.
\<close>

theorem AddTxAttempt_active:
  fixes EncodeTxToHex :: "Transaction \<Rightarrow> go_error + string"
  shows "(let r = AddTxAttempt EncodeTxToHex drv1 drv2 db tx etx blkNum;
        tx' = fst r; db' = snd (snd (snd r)) in
      fst (snd (snd r)) = None \<longrightarrow>
        (\<exists>attempt. fst (snd r) = Some attempt \<and> Attempt_Hash attempt = Transaction_Hash etx \<and>
           attempt \<in> set (tx_attempts db') \<and> tx' \<in> set (txes db') \<and>
           filter (\<lambda>a. Attempt_Hash a \<noteq> Transaction_Hash etx) (tx_attempts db') =
             filter (\<lambda>a. Attempt_Hash a \<noteq> Transaction_Hash etx) (tx_attempts db) \<and>
           Attempt_Hash ` set (tx_attempts db) \<subseteq> Attempt_Hash ` set (tx_attempts db') \<and>
           Tx_Confirmed tx' = Tx_Confirmed tx \<and>
           ActiveAttempt tx' =
             (if Tx_Confirmed tx then ActiveAttempt tx else Some (Transaction_Hash etx)))) \<and>
     (let rs = AddTxAttempt_calls EncodeTxToHex db tx calls in
      calls \<noteq> [] \<and> \<not> Tx_Confirmed tx \<and> (\<forall>e\<in>set (fst (snd rs)). e = None) \<longrightarrow>
        ActiveAttempt (fst rs) = Some (Transaction_Hash (fst (snd (snd (last calls))))) \<and>
        Transaction_Hash (fst (snd (snd (last calls)))) \<in> Attempt_Hash ` set (tx_attempts (snd (snd rs))) \<and>
        fst rs \<in> set (txes (snd (snd rs))))"
proof -
  have one: "fst (snd (snd (AddTxAttempt EncodeTxToHex drv1 drv2 db tx etx blkNum))) = None \<longrightarrow>
      (\<exists>attempt. fst (snd (AddTxAttempt EncodeTxToHex drv1 drv2 db tx etx blkNum)) = Some attempt \<and>
         Attempt_Hash attempt = Transaction_Hash etx \<and>
         attempt \<in> set (tx_attempts (snd (snd (snd (AddTxAttempt EncodeTxToHex drv1 drv2 db tx etx blkNum))))) \<and>
         fst (AddTxAttempt EncodeTxToHex drv1 drv2 db tx etx blkNum) \<in>
           set (txes (snd (snd (snd (AddTxAttempt EncodeTxToHex drv1 drv2 db tx etx blkNum))))) \<and>
         filter (\<lambda>a. Attempt_Hash a \<noteq> Transaction_Hash etx)
             (tx_attempts (snd (snd (snd (AddTxAttempt EncodeTxToHex drv1 drv2 db tx etx blkNum))))) =
           filter (\<lambda>a. Attempt_Hash a \<noteq> Transaction_Hash etx) (tx_attempts db) \<and>
         Attempt_Hash ` set (tx_attempts db) \<subseteq>
           Attempt_Hash ` set (tx_attempts (snd (snd (snd (AddTxAttempt EncodeTxToHex drv1 drv2 db tx etx blkNum))))) \<and>
         Tx_Confirmed (fst (AddTxAttempt EncodeTxToHex drv1 drv2 db tx etx blkNum)) = Tx_Confirmed tx \<and>
         ActiveAttempt (fst (AddTxAttempt EncodeTxToHex drv1 drv2 db tx etx blkNum)) =
           (if Tx_Confirmed tx then ActiveAttempt tx else Some (Transaction_Hash etx)))"
    using AddTxAttempt_step [of EncodeTxToHex drv1 drv2 db tx etx blkNum] by blast
  have many: "calls \<noteq> [] \<and> \<not> Tx_Confirmed tx \<and>
      (\<forall>e\<in>set (fst (snd (AddTxAttempt_calls EncodeTxToHex db tx calls))). e = None) \<longrightarrow>
      ActiveAttempt (fst (AddTxAttempt_calls EncodeTxToHex db tx calls)) =
        Some (Transaction_Hash (fst (snd (snd (last calls))))) \<and>
      Transaction_Hash (fst (snd (snd (last calls)))) \<in>
        Attempt_Hash ` set (tx_attempts (snd (snd (AddTxAttempt_calls EncodeTxToHex db tx calls)))) \<and>
      fst (AddTxAttempt_calls EncodeTxToHex db tx calls) \<in>
        set (txes (snd (snd (AddTxAttempt_calls EncodeTxToHex db tx calls))))"
    using AddTxAttempt_calls_active [of calls tx EncodeTxToHex db] by blast
  from one many show ?thesis
    unfolding Let_def by (rule conjI)
qed

theorem AddTxAttempt_active_witness:
  "AddTxAttempt (\<lambda>etx. Inr ''0x0a'') None None
     (empty_DB\<lparr>txes := [zero_Tx\<lparr>Tx_ID := 1, Nonce := 7\<rparr>]\<rparr>)
     (zero_Tx\<lparr>Tx_ID := 1, Nonce := 7\<rparr>)
     \<lparr>Transaction_Hash = 10, Transaction_GasPrice = 20, Transaction_Payload = []\<rparr> 100 =
   (zero_Tx\<lparr>Tx_ID := 1, Nonce := 7, ActiveAttempt := Some 10\<rparr>,
    Some \<lparr>Attempt_Hash = 10, TxID = 1, GasPrice = 20, Attempt_Confirmed = False,
          Hex = ''0x0a'', SentAt = 100\<rparr>,
    None,
    empty_DB\<lparr>txes := [zero_Tx\<lparr>Tx_ID := 1, Nonce := 7, ActiveAttempt := Some 10\<rparr>],
               tx_attempts := [\<lparr>Attempt_Hash = 10, TxID = 1, GasPrice = 20, Attempt_Confirmed = False,
                                Hex = ''0x0a'', SentAt = 100\<rparr>]\<rparr>) \<and>
   AddTxAttempt_calls (\<lambda>etx. Inr ''0x0a'')
     (empty_DB\<lparr>txes := [zero_Tx\<lparr>Tx_ID := 1, Nonce := 7\<rparr>]\<rparr>)
     (zero_Tx\<lparr>Tx_ID := 1, Nonce := 7\<rparr>)
     [(None, None, \<lparr>Transaction_Hash = 10, Transaction_GasPrice = 20, Transaction_Payload = []\<rparr>, 100),
      (None, None, \<lparr>Transaction_Hash = 11, Transaction_GasPrice = 30, Transaction_Payload = []\<rparr>, 105)] =
   (zero_Tx\<lparr>Tx_ID := 1, Nonce := 7, ActiveAttempt := Some 11\<rparr>,
    [None, None],
    empty_DB\<lparr>txes := [zero_Tx\<lparr>Tx_ID := 1, Nonce := 7, ActiveAttempt := Some 11\<rparr>],
               tx_attempts := [\<lparr>Attempt_Hash = 10, TxID = 1, GasPrice = 20, Attempt_Confirmed = False,
                                Hex = ''0x0a'', SentAt = 100\<rparr>,
                               \<lparr>Attempt_Hash = 11, TxID = 1, GasPrice = 30, Attempt_Confirmed = False,
                                Hex = ''0x0a'', SentAt = 105\<rparr>]\<rparr>)"
  using AddTxAttempt_active [of "\<lambda>etx. Inr ''0x0a''" None None
      "empty_DB\<lparr>txes := [zero_Tx\<lparr>Tx_ID := 1, Nonce := 7\<rparr>]\<rparr>"
      "zero_Tx\<lparr>Tx_ID := 1, Nonce := 7\<rparr>"
      "\<lparr>Transaction_Hash = 10, Transaction_GasPrice = 20, Transaction_Payload = []\<rparr>" 100
      "[(None, None, \<lparr>Transaction_Hash = 10, Transaction_GasPrice = 20, Transaction_Payload = []\<rparr>, 100),
        (None, None, \<lparr>Transaction_Hash = 11, Transaction_GasPrice = 30, Transaction_Payload = []\<rparr>, 105)]"]
  by (simp add: AddTxAttempt_def AssignTxAttempt_def Save_Tx_def Save_TxAttempt_def handle_def
      multify_simps empty_DB_def zero_Tx_def Let_def)

lemma Tx_ActiveAttempt_triv: "tx\<lparr>ActiveAttempt := ActiveAttempt tx\<rparr> = (tx::Tx)"
  by (cases tx) simp

text \<open>
  C3: a call of \<open>AddTxAttempt\<close>, whatever its outcome, leaves the Tx's from, to,
  nonce, data, value, gas limit and confirmed flag as they were. For an existing Tx
  (its id is not blank) the Tx after the call is the Tx before it but for the active
  attempt, the new attempt carries the Tx's id, the stored rows of other Txs are as
  they were, and after a successful call the Tx so changed is the stored one.
\<close>

theorem AddTxAttempt_keeps_nonce:
  fixes EncodeTxToHex :: "Transaction \<Rightarrow> go_error + string"
  shows "(let r = AddTxAttempt EncodeTxToHex drv1 drv2 db tx etx blkNum;
        tx' = fst r; db' = snd (snd (snd r)) in
      From tx' = From tx \<and> To tx' = To tx \<and> Nonce tx' = Nonce tx \<and> Data tx' = Data tx \<and>
      Tx_Value tx' = Tx_Value tx \<and> GasLimit tx' = GasLimit tx \<and>
      Tx_Confirmed tx' = Tx_Confirmed tx \<and>
      (Tx_ID tx \<noteq> 0 \<longrightarrow>
         tx' = tx\<lparr>ActiveAttempt := ActiveAttempt tx'\<rparr> \<and>
         (\<forall>attempt. fst (snd r) = Some attempt \<longrightarrow> TxID attempt = Tx_ID tx') \<and>
         filter (\<lambda>t. Tx_ID t \<noteq> Tx_ID tx) (txes db') = filter (\<lambda>t. Tx_ID t \<noteq> Tx_ID tx) (txes db) \<and>
         (fst (snd (snd r)) = None \<longrightarrow> tx' \<in> set (txes db'))))"
proof (cases "EncodeTxToHex etx")
  case (Inl err)
  then show ?thesis
    by (simp add: AddTxAttempt_def Tx_ActiveAttempt_triv)
next
  case (Inr hex)
  define attempt where "attempt = \<lparr>Attempt_Hash = Transaction_Hash etx, TxID = Tx_ID tx,
      GasPrice = Transaction_GasPrice etx, Attempt_Confirmed = False, Hex = hex, SentAt = blkNum\<rparr>"
  define tx1 where "tx1 = (if Tx_Confirmed tx then tx else tx\<lparr>ActiveAttempt := Some (Transaction_Hash etx)\<rparr>)"
  have assign: "(if \<not> Tx_Confirmed tx then AssignTxAttempt tx attempt else tx) = tx1"
    by (simp add: tx1_def attempt_def AssignTxAttempt_unconfirmed)
  have fields: "From tx1 = From tx" "To tx1 = To tx" "Nonce tx1 = Nonce tx" "Data tx1 = Data tx"
    "Tx_Value tx1 = Tx_Value tx" "GasLimit tx1 = GasLimit tx" "Tx_Confirmed tx1 = Tx_Confirmed tx"
    "Tx_ID tx1 = Tx_ID tx"
    by (simp_all add: tx1_def)
  have frame: "tx1 = tx\<lparr>ActiveAttempt := ActiveAttempt tx1\<rparr>"
    by (simp add: tx1_def Tx_ActiveAttempt_triv)
  have others: "filter (\<lambda>t. Tx_ID t \<noteq> Tx_ID tx) (upsert Tx_ID tx1 (txes db)) =
      filter (\<lambda>t. Tx_ID t \<noteq> Tx_ID tx) (txes db)"
    using upsert_others [of Tx_ID tx1 "txes db"] by (simp only: fields)
  have stored: "tx1 \<in> set (upsert Tx_ID tx1 (txes db))"
    by (rule upsert_mem)
  have call: "AddTxAttempt EncodeTxToHex d1 d2 db tx etx blkNum =
      (let saved = Save_Tx d1 (handle db) tx1; h = Save_TxAttempt d2 (snd saved) attempt
       in (fst saved, Some attempt, multify (Errors h), Store h))" for d1 d2
    unfolding AddTxAttempt_def Inr sum.case Let_def attempt_def [symmetric] assign ..
  have id: "TxID attempt = Tx_ID tx"
    by (simp add: attempt_def)
  show ?thesis
  proof (cases "Tx_ID tx = 0")
    case True
    then show ?thesis
      by (cases drv1; cases drv2)
        (simp_all add: call Save_Tx_def Save_TxAttempt_def handle_def multify_simps fields Let_def)
  next
    case False
    with frame others stored id show ?thesis
      by (cases drv1; cases drv2)
        (simp_all add: call Save_Tx_def Save_TxAttempt_def handle_def multify_simps fields Let_def)
  qed
qed

theorem AddTxAttempt_keeps_nonce_witness:
  "AddTxAttempt (\<lambda>etx. Inr ''0x0b'') None None
     (empty_DB\<lparr>txes := [zero_Tx\<lparr>Tx_ID := 1, From := 3, To := 4, Nonce := 7, GasLimit := 21000,
                                  ActiveAttempt := Some 10\<rparr>],
                tx_attempts := [\<lparr>Attempt_Hash = 10, TxID = 1, GasPrice = 20, Attempt_Confirmed = False,
                                 Hex = ''0x0a'', SentAt = 100\<rparr>]\<rparr>)
     (zero_Tx\<lparr>Tx_ID := 1, From := 3, To := 4, Nonce := 7, GasLimit := 21000, ActiveAttempt := Some 10\<rparr>)
     \<lparr>Transaction_Hash = 11, Transaction_GasPrice = 30, Transaction_Payload = []\<rparr> 105 =
   (zero_Tx\<lparr>Tx_ID := 1, From := 3, To := 4, Nonce := 7, GasLimit := 21000, ActiveAttempt := Some 11\<rparr>,
    Some \<lparr>Attempt_Hash = 11, TxID = 1, GasPrice = 30, Attempt_Confirmed = False,
          Hex = ''0x0b'', SentAt = 105\<rparr>,
    None,
    empty_DB\<lparr>txes := [zero_Tx\<lparr>Tx_ID := 1, From := 3, To := 4, Nonce := 7, GasLimit := 21000,
                                 ActiveAttempt := Some 11\<rparr>],
               tx_attempts := [\<lparr>Attempt_Hash = 10, TxID = 1, GasPrice = 20, Attempt_Confirmed = False,
                                Hex = ''0x0a'', SentAt = 100\<rparr>,
                               \<lparr>Attempt_Hash = 11, TxID = 1, GasPrice = 30, Attempt_Confirmed = False,
                                Hex = ''0x0b'', SentAt = 105\<rparr>]\<rparr>)"
  using AddTxAttempt_keeps_nonce [of "\<lambda>etx. Inr ''0x0b''" None None
     "empty_DB\<lparr>txes := [zero_Tx\<lparr>Tx_ID := 1, From := 3, To := 4, Nonce := 7, GasLimit := 21000,
                                  ActiveAttempt := Some 10\<rparr>],
                tx_attempts := [\<lparr>Attempt_Hash = 10, TxID = 1, GasPrice = 20, Attempt_Confirmed = False,
                                 Hex = ''0x0a'', SentAt = 100\<rparr>]\<rparr>"
     "zero_Tx\<lparr>Tx_ID := 1, From := 3, To := 4, Nonce := 7, GasLimit := 21000, ActiveAttempt := Some 10\<rparr>"
     "\<lparr>Transaction_Hash = 11, Transaction_GasPrice = 30, Transaction_Payload = []\<rparr>" 105]
  by (simp add: AddTxAttempt_def AssignTxAttempt_def Save_Tx_def Save_TxAttempt_def handle_def
      multify_simps empty_DB_def zero_Tx_def Let_def)

end
